theory Spec2Isabelle
  imports Main "HOL-Library.Word"
begin

unbundle bit_operations_syntax

section \<open>Python values, buffers and exceptions\<close>

text \<open>
  A Python \<open>bytes\<close> object is a list of 8-bit words. Positions in the decoder start
  at 0 and only grow, so they are natural numbers. Reading \<open>data[i]\<close> raises
  \<open>IndexError\<close> when \<open>i\<close> is not below the length of the buffer; a slice
  \<open>data[i:j]\<close> never raises and is cut at the end of the buffer.
\<close>

type_synonym byte = "8 word"

datatype py_error = IndexError | StructError | KeyError | Exception string

definition byte_at :: "byte list \<Rightarrow> nat \<Rightarrow> py_error + byte" where
  "byte_at data i = (if i < length data then Inr (data ! i) else Inl IndexError)"

definition slice :: "byte list \<Rightarrow> nat \<Rightarrow> nat \<Rightarrow> byte list" where
  "slice data i j = take (j - i) (drop i data)"

section \<open>BER length decoding (Sniffer\_Raw.py, \_parse\_ber\_length)\<close>

text \<open>
  The loop \<open>for i in range(num_octets): length = (length << 8) | data[pos + i]\<close>,
  over the list of indices \<open>[0..<num_octets]\<close>.
\<close>

fun ber_length_octets :: "byte list \<Rightarrow> nat \<Rightarrow> nat list \<Rightarrow> nat \<Rightarrow> py_error + nat" where
  "ber_length_octets data pos [] len = Inr len"
| "ber_length_octets data pos (i # rest) len =
     (case byte_at data (pos + i) of
        Inl e \<Rightarrow> Inl e
      | Inr b \<Rightarrow> ber_length_octets data pos rest (push_bit 8 len OR unat b))"

definition parse_ber_length :: "byte list \<Rightarrow> nat \<Rightarrow> py_error + (nat \<times> nat)" where
  "parse_ber_length data pos =
     (if pos \<ge> length data then Inr (pos, 0)
      else case byte_at data pos of
        Inl e \<Rightarrow> Inl e
      | Inr first_byte \<Rightarrow>
          let pos1 = pos + 1 in
          if first_byte AND 0x80 = 0 then Inr (pos1, unat first_byte)
          else
            let num_octets = unat (first_byte AND 0x7F) in
            if num_octets = 0 then Inr (pos1, 0)
            else if pos1 + num_octets > length data then Inr (pos1, 0)
            else (case ber_length_octets data pos1 [0..<num_octets] 0 of
              Inl e \<Rightarrow> Inl e
            | Inr len \<Rightarrow> Inr (pos1 + num_octets, len)))"

section \<open>The decoder (Sniffer\_Raw.py, class EnhancedGOOSERawSniffer)\<close>

subsection \<open>Library functions of Python the decoder calls\<close>

text \<open>
  \<open>int.from_bytes(bs, 'big')\<close> and \<open>int.from_bytes(bs, 'big', signed=True)\<close>;
  both give 0 on the empty byte string.
\<close>

definition from_bytes_big :: "byte list \<Rightarrow> nat" where
  "from_bytes_big bs = foldl (\<lambda>acc b. acc * 256 + unat b) 0 bs"

definition from_bytes_big_signed :: "byte list \<Rightarrow> int" where
  "from_bytes_big_signed bs =
     (let n = int (from_bytes_big bs) in
      if bs \<noteq> [] \<and> n \<ge> 2 ^ (8 * length bs - 1) then n - 2 ^ (8 * length bs) else n)"

text \<open>
  \<open>struct.unpack('!H', bs)[0]\<close>, and \<open>struct.unpack\<close> with \<open>'!f'\<close> (size 4) or
  \<open>'!d'\<close> (size 8): \<open>struct.error\<close> unless the buffer has exactly the size of the
  format. The floating-point number is kept as its IEEE 754 bytes.
\<close>

datatype pyval = PInt int | PBool bool | PStr string | PFloat "byte list"

definition unpack_H :: "byte list \<Rightarrow> py_error + int" where
  "unpack_H bs = (if length bs = 2 then Inr (int (from_bytes_big bs)) else Inl StructError)"

definition unpack_float :: "nat \<Rightarrow> byte list \<Rightarrow> py_error + pyval" where
  "unpack_float sz bs = (if length bs = sz then Inr (PFloat bs) else Inl StructError)"

text \<open>
  Formatting: the digits of \<open>format(n, 'X')\<close> and \<open>format(n, 'x')\<close> for a natural
  number, \<open>str.zfill\<close>, the format specifications \<open>0wX\<close> and \<open>0wx\<close> on an integer
  (the sign counts in the width), \<open>bytes.hex()\<close>, \<open>str(n)\<close> on an integer, and
  \<open>sep.join\<close>.
\<close>

definition hex_digit :: "bool \<Rightarrow> nat \<Rightarrow> char" where
  "hex_digit upper d = (if upper then ''0123456789ABCDEF'' else ''0123456789abcdef'') ! d"

function hex_digits :: "bool \<Rightarrow> nat \<Rightarrow> string" where
  "hex_digits upper n =
     (if n < 16 then [hex_digit upper n]
      else hex_digits upper (n div 16) @ [hex_digit upper (n mod 16)])"
  by pat_completeness auto
termination
  by (relation "measure snd") auto

declare hex_digits.simps [simp del]

definition zfill :: "nat \<Rightarrow> string \<Rightarrow> string" where
  "zfill w s = replicate (w - length s) (CHR ''0'') @ s"

definition format_hex :: "bool \<Rightarrow> nat \<Rightarrow> int \<Rightarrow> string" where
  "format_hex upper w n =
     (if n < 0 then CHR ''-'' # zfill (w - 1) (hex_digits upper (nat (- n)))
      else zfill w (hex_digits upper (nat n)))"

definition bytes_hex :: "byte list \<Rightarrow> string" where
  "bytes_hex bs = concat (map (\<lambda>b. format_hex False 2 (uint b)) bs)"

function dec_digits :: "nat \<Rightarrow> string" where
  "dec_digits n =
     (if n < 10 then [''0123456789'' ! n]
      else dec_digits (n div 10) @ [''0123456789'' ! (n mod 10)])"
  by pat_completeness auto
termination
  by (relation "measure id") auto

declare dec_digits.simps [simp del]

definition str_int :: "int \<Rightarrow> string" where
  "str_int n = (if n < 0 then CHR ''-'' # dec_digits (nat (- n)) else dec_digits (nat n))"

fun join :: "string \<Rightarrow> string list \<Rightarrow> string" where
  "join sep [] = []"
| "join sep [x] = x"
| "join sep (x # y # ys) = x @ sep @ join sep (y # ys)"

definition mac_to_string :: "byte list \<Rightarrow> string" where
  "mac_to_string mac_bytes = join '':'' (map (\<lambda>b. format_hex False 2 (uint b)) mac_bytes)"

subsection \<open>The result dictionary\<close>

text \<open>
  The dictionary the decoder builds has a fixed set of keys, each with one type of
  value; a key may be absent. It is a record of optional fields, \<open>dict.update\<close> takes
  every key present in its argument, and \<open>get(key, default)\<close> reads a field.
  The key \<open>values\<close> is the field \<open>values_list\<close>.
\<close>

record goose_data =
  src_mac :: "string option"
  dst_mac :: "string option"
  timestamp :: "int option"
  raw_data_length :: "int option"
  appId :: "int option"
  pdu_length :: "int option"
  reserved :: "string option"
  goCbRef :: "string option"
  timeAllowedToLive :: "int option"
  dataSet :: "string option"
  goID :: "string option"
  stNum :: "int option"
  sqNum :: "int option"
  test :: "bool option"
  confRev :: "int option"
  ndsCom :: "bool option"
  numDatSetEntries :: "int option"
  values_list :: "pyval list option"

definition empty_dict :: goose_data where
  "empty_dict = \<lparr>src_mac = None, dst_mac = None, timestamp = None, raw_data_length = None,
     appId = None, pdu_length = None, reserved = None, goCbRef = None,
     timeAllowedToLive = None, dataSet = None, goID = None, stNum = None, sqNum = None,
     test = None, confRev = None, ndsCom = None, numDatSetEntries = None, values_list = None\<rparr>"

definition dict_get :: "'a option \<Rightarrow> 'a \<Rightarrow> 'a" where
  "dict_get v d = (case v of None \<Rightarrow> d | Some x \<Rightarrow> x)"

definition setdefault :: "'a option \<Rightarrow> 'a \<Rightarrow> 'a option" where
  "setdefault v d = (case v of None \<Rightarrow> Some d | Some x \<Rightarrow> Some x)"

definition or_else :: "'a option \<Rightarrow> 'a option \<Rightarrow> 'a option" where
  "or_else new old = (case new of None \<Rightarrow> old | Some x \<Rightarrow> Some x)"

definition dict_update :: "goose_data \<Rightarrow> goose_data \<Rightarrow> goose_data" where
  "dict_update d u =
     \<lparr>src_mac = or_else (src_mac u) (src_mac d), dst_mac = or_else (dst_mac u) (dst_mac d),
      timestamp = or_else (timestamp u) (timestamp d),
      raw_data_length = or_else (raw_data_length u) (raw_data_length d),
      appId = or_else (appId u) (appId d), pdu_length = or_else (pdu_length u) (pdu_length d),
      reserved = or_else (reserved u) (reserved d), goCbRef = or_else (goCbRef u) (goCbRef d),
      timeAllowedToLive = or_else (timeAllowedToLive u) (timeAllowedToLive d),
      dataSet = or_else (dataSet u) (dataSet d), goID = or_else (goID u) (goID d),
      stNum = or_else (stNum u) (stNum d), sqNum = or_else (sqNum u) (sqNum d),
      test = or_else (test u) (test d), confRev = or_else (confRev u) (confRev d),
      ndsCom = or_else (ndsCom u) (ndsCom d),
      numDatSetEntries = or_else (numDatSetEntries u) (numDatSetEntries d),
      values_list = or_else (values_list u) (values_list d)\<rparr>"

subsection \<open>Timestamps and dataset values\<close>

text \<open>
  \<open>now\<close> is the value of \<open>int(time.time() * 1000)\<close>, and \<open>decode\<close> is
  \<open>bytes.decode('utf-8', errors='replace')\<close>, which is total; both are parameters of
  the decoder. Output on the console is not modelled.
\<close>

definition parse_timestamp_enhanced :: "int \<Rightarrow> byte list \<Rightarrow> int" where
  "parse_timestamp_enhanced now data =
     (if length data \<ge> 8 then
        (let seconds = int (from_bytes_big (slice data 0 4));
             fraction = (if length data \<ge> 7 then int (from_bytes_big (slice data 4 7)) else 0)
         in seconds * 1000 + (fraction * 1000) div 16777216)
      else if length data \<ge> 4 then int (from_bytes_big (slice data 0 4)) * 1000
      else now)"

text \<open>
  The \<open>if\<close>/\<open>elif\<close> chain of \<open>_parse_all_data_enhanced\<close> on one member with
  tag \<open>tag\<close> and content \<open>data[pos:pos+length]\<close>: the value appended, or the
  exception raised inside the inner \<open>try\<close>.
\<close>

definition parse_data_value ::
  "(byte list \<Rightarrow> string) \<Rightarrow> int \<Rightarrow> byte list \<Rightarrow> nat \<Rightarrow> nat \<Rightarrow> byte \<Rightarrow> py_error + pyval" where
  "parse_data_value decode now data pos len tag =
     (if tag = 0x83 then
        (if len > 0 then
           (case byte_at data pos of Inl e \<Rightarrow> Inl e | Inr b \<Rightarrow> Inr (PBool (b \<noteq> 0)))
         else Inr (PBool False))
      else if tag = 0x84 then
        (if len > 1 then
           (case byte_at data pos of
              Inl e \<Rightarrow> Inl e
            | Inr unused_bits \<Rightarrow>
                let bit_string = slice data (pos + 1) (pos + len);
                    bit_value = int (from_bytes_big bit_string)
                in Inr (PStr (''0x'' @ format_hex True ((len - 1) * 2) bit_value)))
         else Inr (PStr ''0x00''))
      else if tag = 0x85 then
        (if len \<le> 8 then Inr (PInt (from_bytes_big_signed (slice data pos (pos + len))))
         else Inr (PStr (''BigInt:'' @ bytes_hex (slice data pos (pos + len)))))
      else if tag = 0x86 then
        (if len \<le> 8 then Inr (PInt (int (from_bytes_big (slice data pos (pos + len)))))
         else Inr (PStr (''BigUInt:'' @ bytes_hex (slice data pos (pos + len)))))
      else if tag = 0x87 then
        (if len = 4 then unpack_float 4 (slice data pos (pos + len))
         else if len = 8 then unpack_float 8 (slice data pos (pos + len))
         else Inr (PStr (''Float:'' @ bytes_hex (slice data pos (pos + len)))))
      else if tag = 0x89 then Inr (PStr (''0x'' @ bytes_hex (slice data pos (pos + len))))
      else if tag = 0x8A then Inr (PStr (decode (slice data pos (pos + len))))
      else if tag = 0x8C then
        (if len = 4 then
           Inr (PStr (''BinTime:'' @ str_int (int (from_bytes_big (slice data pos (pos + len))))))
         else if len = 6 then
           (let days = int (from_bytes_big (slice data pos (pos + 2)));
                ms = int (from_bytes_big (slice data (pos + 2) (pos + 6)))
            in Inr (PStr (''BinTime:'' @ str_int days @ ''d_'' @ str_int ms @ ''ms'')))
         else Inr (PStr (''BinTime:'' @ bytes_hex (slice data pos (pos + len)))))
      else if tag = 0x91 then
        Inr (PInt (parse_timestamp_enhanced now (slice data pos (pos + len))))
      else
        Inr (PStr (''Type'' @ format_hex True 2 (uint tag) @ '':'' @
                   bytes_hex (slice data pos (pos + len)))))"

text \<open>
  One pass through the body of the \<open>while\<close> loop of \<open>_parse_all_data_enhanced\<close>:
  an exception that escapes to the outer \<open>try\<close>, or \<open>None\<close> for \<open>break\<close>, or
  the position and the list after the pass. An exception inside the inner \<open>try\<close>
  appends the \<open>ParseError\<close> marker.
\<close>

definition all_data_step ::
  "(byte list \<Rightarrow> string) \<Rightarrow> int \<Rightarrow> byte list \<Rightarrow> nat \<Rightarrow> pyval list \<Rightarrow>
     py_error + (nat \<times> pyval list) option" where
  "all_data_step decode now data pos vals =
     (if pos \<ge> length data then Inr None
      else case byte_at data pos of
        Inl e \<Rightarrow> Inl e
      | Inr tag \<Rightarrow>
          if pos + 1 \<ge> length data then Inr None
          else (case parse_ber_length data (pos + 1) of
            Inl e \<Rightarrow> Inl e
          | Inr (pos1, len) \<Rightarrow>
              if pos1 + len > length data then Inr None
              else
                (let v = (case parse_data_value decode now data pos1 len tag of
                            Inl e \<Rightarrow> PStr (''ParseError:'' @ bytes_hex (slice data pos1 (pos1 + len)))
                          | Inr v \<Rightarrow> v)
                 in Inr (Some (pos1 + len, vals @ [v])))))"

text \<open>
  The loop, with the exception the outer \<open>try\<close> caught, if any, and the list
  returned.
\<close>

function parse_all_data_loop ::
  "(byte list \<Rightarrow> string) \<Rightarrow> int \<Rightarrow> byte list \<Rightarrow> nat \<Rightarrow> pyval list \<Rightarrow>
     py_error option \<times> pyval list" where
  "parse_all_data_loop decode now data pos vals =
     (if int pos < int (length data) - 1 then
        (case all_data_step decode now data pos vals of
           Inl e \<Rightarrow> (Some e, vals)
         | Inr None \<Rightarrow> (None, vals)
         | Inr (Some (pos', vals')) \<Rightarrow> parse_all_data_loop decode now data pos' vals')
      else (None, vals))"
  by pat_completeness auto
termination
proof (relation "measure (\<lambda>(decode, now, data, pos, vals). length data - pos)")
  show "wf (measure (\<lambda>(decode, now, data, pos, vals). length data - pos))" by simp
next
  fix decode :: "byte list \<Rightarrow> string" and now :: int and data :: "byte list"
    and pos :: nat and vals :: "pyval list" and x2 x2a x y
  assume lt: "int pos < int (length data) - 1"
    and step: "all_data_step decode now data pos vals = Inr x2" "x2 = Some x2a" "(x, y) = x2a"
  have "pos < x"
  proof -
    have "pos1 \<ge> pos + 1" if "parse_ber_length data (pos + 1) = Inr (pos1, len)" for pos1 len
      using that unfolding parse_ber_length_def Let_def
      by (auto split: if_splits sum.splits)
    with step show ?thesis
      unfolding all_data_step_def Let_def
      by (fastforce split: if_splits sum.splits prod.splits)
  qed
  with lt show "((decode, now, data, x, y), (decode, now, data, pos, vals)) \<in>
      measure (\<lambda>(decode, now, data, pos, vals). length data - pos)"
    by simp
qed

declare parse_all_data_loop.simps [simp del]

definition parse_all_data_enhanced :: "(byte list \<Rightarrow> string) \<Rightarrow> int \<Rightarrow> byte list \<Rightarrow> pyval list" where
  "parse_all_data_enhanced decode now data = snd (parse_all_data_loop decode now data 0 [])"

subsection \<open>The fields of the GOOSE PDU\<close>

text \<open>
  The \<open>if\<close>/\<open>elif\<close> chain of \<open>_parse_goose_pdu_enhanced\<close> on one field: the
  dictionary after it, or the exception raised inside the inner \<open>try\<close> (which the
  loop passes over).
\<close>

definition parse_pdu_field ::
  "(byte list \<Rightarrow> string) \<Rightarrow> int \<Rightarrow> byte list \<Rightarrow> nat \<Rightarrow> nat \<Rightarrow> byte \<Rightarrow> goose_data \<Rightarrow>
     py_error + goose_data" where
  "parse_pdu_field decode now data pos len tag result =
     (let content = slice data pos (pos + len) in
      if tag = 0x80 then Inr (result\<lparr>goCbRef := Some (decode content)\<rparr>)
      else if tag = 0x81 then
        (if len \<le> 8 then Inr (result\<lparr>timeAllowedToLive := Some (int (from_bytes_big content))\<rparr>)
         else Inr result)
      else if tag = 0x82 then Inr (result\<lparr>dataSet := Some (decode content)\<rparr>)
      else if tag = 0x83 then Inr (result\<lparr>goID := Some (decode content)\<rparr>)
      else if tag = 0x84 then
        Inr (result\<lparr>timestamp := Some (parse_timestamp_enhanced now content)\<rparr>)
      else if tag = 0x85 then
        (if len \<le> 8 then Inr (result\<lparr>stNum := Some (int (from_bytes_big content))\<rparr>)
         else Inr result)
      else if tag = 0x86 then
        (if len \<le> 8 then Inr (result\<lparr>sqNum := Some (int (from_bytes_big content))\<rparr>)
         else Inr result)
      else if tag = 0x87 then
        (if len > 0 then
           (case byte_at data pos of
              Inl e \<Rightarrow> Inl e
            | Inr b \<Rightarrow> Inr (result\<lparr>test := Some (b \<noteq> 0)\<rparr>))
         else Inr (result\<lparr>test := Some False\<rparr>))
      else if tag = 0x88 then
        (if len \<le> 8 then Inr (result\<lparr>confRev := Some (int (from_bytes_big content))\<rparr>)
         else Inr result)
      else if tag = 0x89 then
        (if len > 0 then
           (case byte_at data pos of
              Inl e \<Rightarrow> Inl e
            | Inr b \<Rightarrow> Inr (result\<lparr>ndsCom := Some (b \<noteq> 0)\<rparr>))
         else Inr (result\<lparr>ndsCom := Some False\<rparr>))
      else if tag = 0x8A then
        (if len \<le> 8 then Inr (result\<lparr>numDatSetEntries := Some (int (from_bytes_big content))\<rparr>)
         else Inr result)
      else if tag = 0xAB then
        Inr (result\<lparr>values_list := Some (parse_all_data_enhanced decode now content)\<rparr>)
      else Inr result)"

definition goose_pdu_step ::
  "(byte list \<Rightarrow> string) \<Rightarrow> int \<Rightarrow> byte list \<Rightarrow> nat \<Rightarrow> goose_data \<Rightarrow>
     py_error + (nat \<times> goose_data) option" where
  "goose_pdu_step decode now data pos result =
     (if pos \<ge> length data then Inr None
      else case byte_at data pos of
        Inl e \<Rightarrow> Inl e
      | Inr tag \<Rightarrow>
          if pos + 1 \<ge> length data then Inr None
          else (case parse_ber_length data (pos + 1) of
            Inl e \<Rightarrow> Inl e
          | Inr (pos1, len) \<Rightarrow>
              if pos1 + len > length data then Inr None
              else
                (let result1 = (case parse_pdu_field decode now data pos1 len tag result of
                                  Inl e \<Rightarrow> result
                                | Inr r \<Rightarrow> r)
                 in Inr (Some (pos1 + len, result1)))))"

function parse_goose_pdu_loop ::
  "(byte list \<Rightarrow> string) \<Rightarrow> int \<Rightarrow> byte list \<Rightarrow> nat \<Rightarrow> goose_data \<Rightarrow>
     py_error option \<times> goose_data" where
  "parse_goose_pdu_loop decode now data pos result =
     (if int pos < int (length data) - 1 then
        (case goose_pdu_step decode now data pos result of
           Inl e \<Rightarrow> (Some e, result)
         | Inr None \<Rightarrow> (None, result)
         | Inr (Some (pos', result')) \<Rightarrow> parse_goose_pdu_loop decode now data pos' result')
      else (None, result))"
  by pat_completeness auto
termination
proof (relation "measure (\<lambda>(decode, now, data, pos, result). length data - pos)")
  show "wf (measure (\<lambda>(decode, now, data, pos, result). length data - pos))" by simp
next
  fix decode :: "byte list \<Rightarrow> string" and now :: int and data :: "byte list"
    and pos :: nat and result :: goose_data and x2 x2a x y
  assume lt: "int pos < int (length data) - 1"
    and step: "goose_pdu_step decode now data pos result = Inr x2" "x2 = Some x2a" "(x, y) = x2a"
  have "pos < x"
  proof -
    have "pos1 \<ge> pos + 1" if "parse_ber_length data (pos + 1) = Inr (pos1, len)" for pos1 len
      using that unfolding parse_ber_length_def Let_def
      by (auto split: if_splits sum.splits)
    with step show ?thesis
      unfolding goose_pdu_step_def Let_def
      by (fastforce split: if_splits sum.splits prod.splits)
  qed
  with lt show "((decode, now, data, x, y), (decode, now, data, pos, result)) \<in>
      measure (\<lambda>(decode, now, data, pos, result). length data - pos)"
    by simp
qed

declare parse_goose_pdu_loop.simps [simp del]

definition parse_goose_pdu_enhanced :: "(byte list \<Rightarrow> string) \<Rightarrow> int \<Rightarrow> byte list \<Rightarrow> goose_data" where
  "parse_goose_pdu_enhanced decode now data = snd (parse_goose_pdu_loop decode now data 0 empty_dict)"

subsection \<open>The frame payload (parse\_goose\_enhanced)\<close>

text \<open>
  The four parts of the \<open>try\<close> body that read the buffer, each from the dictionary
  and the position the part before it left.
\<close>

definition parse_appid :: "byte list \<Rightarrow> goose_data \<Rightarrow> py_error + (goose_data \<times> nat)" where
  "parse_appid data goose_info =
     (if length data \<ge> 2 then
        (case unpack_H (slice data 0 2) of
           Inl e \<Rightarrow> Inl e
         | Inr v \<Rightarrow> Inr (goose_info\<lparr>appId := Some v\<rparr>, 2))
      else Inr (goose_info\<lparr>appId := Some 0\<rparr>, 0))"

definition parse_length :: "byte list \<Rightarrow> goose_data \<Rightarrow> nat \<Rightarrow> py_error + (goose_data \<times> nat)" where
  "parse_length data goose_info pos =
     (if length data \<ge> pos + 2 then
        (case unpack_H (slice data pos (pos + 2)) of
           Inl e \<Rightarrow> Inl e
         | Inr len \<Rightarrow> Inr (goose_info\<lparr>pdu_length := Some len\<rparr>, pos + 2))
      else Inr (goose_info, pos))"

definition parse_reserved :: "byte list \<Rightarrow> goose_data \<Rightarrow> nat \<Rightarrow> goose_data \<times> nat" where
  "parse_reserved data goose_info pos =
     (if length data \<ge> pos + 4 then
        (goose_info\<lparr>reserved := Some (bytes_hex (slice data pos (pos + 4)))\<rparr>, pos + 4)
      else (goose_info, pos))"

definition parse_pdu ::
  "(byte list \<Rightarrow> string) \<Rightarrow> int \<Rightarrow> byte list \<Rightarrow> goose_data \<Rightarrow> nat \<Rightarrow> py_error + goose_data" where
  "parse_pdu decode now data goose_info pos =
     (if length data > pos then
        (case byte_at data pos of
           Inl e \<Rightarrow> Inl e
         | Inr b \<Rightarrow>
             if b = 0x61 then
               (case parse_ber_length data (pos + 1) of
                  Inl e \<Rightarrow> Inl e
                | Inr (pos1, pdu_len) \<Rightarrow>
                    if pos1 + pdu_len \<le> length data then
                      Inr (dict_update goose_info
                        (parse_goose_pdu_enhanced decode now (slice data pos1 (pos1 + pdu_len))))
                    else Inr goose_info)
             else Inr goose_info)
      else Inr goose_info)"

definition apply_intelligent_defaults :: "goose_data \<Rightarrow> goose_data" where
  "apply_intelligent_defaults goose_info =
     (let i1 = (if goID goose_info = None \<or> goID goose_info = Some [] then
                  goose_info\<lparr>goID := Some (''GOOSE_'' @ format_hex True 4 (dict_get (appId goose_info) 0))\<rparr>
                else goose_info);
          i2 = (if goCbRef i1 = None \<or> goCbRef i1 = Some [] then
                  i1\<lparr>goCbRef := Some (dict_get (goID i1) ''GOOSE'' @ ''/LLN0$GO'')\<rparr>
                else i1);
          i3 = (if dataSet i2 = None \<or> dataSet i2 = Some [] then
                  i2\<lparr>dataSet := Some (dict_get (goID i2) ''GOOSE'' @ ''/LLN0$DS'')\<rparr>
                else i2)
      in i3\<lparr>stNum := setdefault (stNum i3) 1, sqNum := setdefault (sqNum i3) 0,
             test := setdefault (test i3) False, ndsCom := setdefault (ndsCom i3) False,
             confRev := setdefault (confRev i3) 1,
             timeAllowedToLive := setdefault (timeAllowedToLive i3) 10000,
             values_list := setdefault (values_list i3) []\<rparr>)"

definition validate_goose_data :: "goose_data \<Rightarrow> bool" where
  "validate_goose_data goose_info =
     (if src_mac goose_info = None \<or> dst_mac goose_info = None \<or> appId goose_info = None \<or>
         goID goose_info = None \<or> goCbRef goose_info = None \<or> dataSet goose_info = None
      then False
      else
        (let app_id = dict_get (appId goose_info) 0 in
         if \<not> (0 \<le> app_id \<and> app_id \<le> 0xFFFF) then False else True))"

definition create_fallback_goose_data :: "int \<Rightarrow> goose_data \<Rightarrow> goose_data" where
  "create_fallback_goose_data now partial_info =
     (let app_id = dict_get (appId partial_info) 0 in
      empty_dict\<lparr>
        src_mac := Some (dict_get (src_mac partial_info) ''00:00:00:00:00:00''),
        dst_mac := Some (dict_get (dst_mac partial_info) ''01:0C:CD:01:00:00''),
        timestamp := Some (dict_get (timestamp partial_info) now),
        appId := Some app_id,
        goID := Some (''Fallback_'' @ format_hex True 4 app_id),
        goCbRef := Some (''Fallback_'' @ format_hex True 4 app_id @ ''/LLN0$GO''),
        dataSet := Some (''Fallback_'' @ format_hex True 4 app_id @ ''/LLN0$DS''),
        stNum := Some 1, sqNum := Some 0, test := Some False, ndsCom := Some False,
        confRev := Some 1, timeAllowedToLive := Some 10000, values_list := Some []\<rparr>)"

text \<open>
  The body of the \<open>try\<close> of \<open>parse_goose_enhanced\<close>: the dictionary it returns,
  or the exception that reaches its \<open>except\<close>.
\<close>

definition parse_goose_try ::
  "(byte list \<Rightarrow> string) \<Rightarrow> int \<Rightarrow> byte list \<Rightarrow> byte list \<Rightarrow> byte list \<Rightarrow> py_error + goose_data" where
  "parse_goose_try decode now data src dst =
     (let goose_info = empty_dict\<lparr>src_mac := Some (mac_to_string src),
            dst_mac := Some (mac_to_string dst), timestamp := Some now,
            raw_data_length := Some (int (length data))\<rparr>
      in case parse_appid data goose_info of
        Inl e \<Rightarrow> Inl e
      | Inr (info1, pos1) \<Rightarrow>
          (case parse_length data info1 pos1 of
             Inl e \<Rightarrow> Inl e
           | Inr (info2, pos2) \<Rightarrow>
               (let (info3, pos3) = parse_reserved data info2 pos2 in
                case parse_pdu decode now data info3 pos3 of
                  Inl e \<Rightarrow> Inl e
                | Inr info4 \<Rightarrow>
                    (let info5 = apply_intelligent_defaults info4 in
                     if validate_goose_data info5 then Inr info5
                     else Inr (create_fallback_goose_data now info5)))))"

definition parse_goose_enhanced ::
  "(byte list \<Rightarrow> string) \<Rightarrow> int \<Rightarrow> byte list \<Rightarrow> byte list \<Rightarrow> byte list \<Rightarrow> goose_data" where
  "parse_goose_enhanced decode now data src dst =
     (case parse_goose_try decode now data src dst of
        Inr goose_info \<Rightarrow> goose_info
      | Inl e \<Rightarrow>
          empty_dict\<lparr>src_mac := Some (mac_to_string src), dst_mac := Some (mac_to_string dst),
            timestamp := Some now, appId := Some 0, goID := Some ''ParseError'',
            goCbRef := Some ''ParseError'', dataSet := Some ''ParseError'',
            stNum := Some 0, sqNum := Some 0, test := Some False, ndsCom := Some False,
            confRev := Some 0, timeAllowedToLive := Some 0, values_list := Some []\<rparr>)"

subsection \<open>Reading the formatted values back, and example inputs\<close>

text \<open>\<open>int(s, 16)\<close> on a string of hexadecimal digits.\<close>

definition hex_digit_value :: "char \<Rightarrow> nat" where
  "hex_digit_value c =
     (let n = (of_char c :: nat) in
      if 48 \<le> n \<and> n \<le> 57 then n - 48
      else if 65 \<le> n \<and> n \<le> 70 then n - 55
      else if 97 \<le> n \<and> n \<le> 102 then n - 87
      else 0)"

definition hex_value :: "string \<Rightarrow> nat" where
  "hex_value s = foldl (\<lambda>acc c. acc * 16 + hex_digit_value c) 0 s"

text \<open>
  For the examples: a decoder that maps every byte to the character with its code
  (what UTF-8 decoding gives on ASCII), a frame payload with APPID 0x1000 whose PDU
  holds goID \<open>G1\<close>, stNum 5, sqNum 0 and one boolean, and a MAC address.
\<close>

definition ascii_decode :: "byte list \<Rightarrow> string" where
  "ascii_decode bs = map (\<lambda>b. char_of (unat b)) bs"

definition example_pdu :: "byte list" where
  "example_pdu = [0x10, 0x00, 0x00, 0x19, 0x00, 0x00, 0x00, 0x00, 0x61, 0x0F,
     0x83, 0x02, 0x47, 0x31, 0x85, 0x01, 0x05, 0x86, 0x01, 0x00,
     0xAB, 0x03, 0x83, 0x01, 0x01]"

definition example_mac :: "byte list" where
  "example_mac = [0x01, 0x0C, 0xCD, 0x01, 0x00, 0x01]"

section \<open>The GOOSE publisher (pyiec61850\_wrapper.py, class GOOSEPublisher)\<close>

text \<open>
  The fields of \<open>GOOSEPublisher\<close> that \<open>enable\<close> and \<open>publish\<close> read or
  write. \<open>publisher\<close> and \<open>dataset\<close> hold handles of libiec61850; the code only
  tests them for truth, so they are booleans here (handle present). Python integers
  are unbounded: \<open>st_num\<close> and \<open>sq_num\<close> are \<open>int\<close>.
\<close>

datatype mms_value = MmsBoolean bool | MmsInt32 int | MmsVisibleString string
  | MmsBitString nat int | MmsUtcTime int

record goose_publisher =
  publisher :: bool
  dataset :: bool
  dataset_values :: "mms_value list"
  st_num :: int
  sq_num :: int
  goose_enabled :: bool
  first_publish :: bool

text \<open>
  What the calls into libiec61850 do during one \<open>publish\<close> is an input of the
  model: whether \<open>LinkedList_create\<close> returns a handle, whether
  \<open>GoosePublisher_increaseStNum\<close> and \<open>GoosePublisher_setSqNum\<close> return
  normally (\<open>False\<close>: the binding raises), and the return code of
  \<open>GoosePublisher_publish\<close> (\<open>None\<close>: the binding raises).
\<close>

record lib_outcome =
  list_created :: bool
  increase_st_num_ok :: bool
  set_sq_num_ok :: bool
  publish_result :: "int option"

definition init_publisher :: goose_publisher where
  "init_publisher = \<lparr>publisher = False, dataset = False, dataset_values = [],
     st_num = 0, sq_num = 0, goose_enabled = False, first_publish = True\<rparr>"

definition add_boolean_value :: "bool \<Rightarrow> goose_publisher \<Rightarrow> goose_publisher" where
  "add_boolean_value v s = s\<lparr>dataset_values := dataset_values s @ [MmsBoolean v]\<rparr>"

text \<open>
  \<open>enable\<close> returns the exception it raised, if any, and the publisher as the
  call left it (an assignment made before a \<open>raise\<close> stays).
\<close>

definition enable :: "lib_outcome \<Rightarrow> bool \<Rightarrow> goose_publisher \<Rightarrow> py_error option \<times> goose_publisher" where
  "enable lib create_default s =
     (if \<not> publisher s then (Some (Exception ''Publisher not created''), s)
      else if dataset_values s \<noteq> [] \<or> create_default then
        let s1 = (if dataset_values s = [] then add_boolean_value False s else s);
            s2 = s1\<lparr>dataset := list_created lib\<rparr>
        in if \<not> dataset s2 then (Some (Exception ''Failed to create dataset LinkedList''), s2)
           else (None, s2\<lparr>goose_enabled := True\<rparr>)
      else (None, s))"

text \<open>
  The last part of \<open>publish\<close>: the call of \<open>GoosePublisher_publish\<close> and the
  test of its return code.
\<close>

definition publish_send :: "lib_outcome \<Rightarrow> goose_publisher \<Rightarrow> bool \<times> goose_publisher" where
  "publish_send lib s =
     (case publish_result lib of
        None \<Rightarrow> (False, s)
      | Some result \<Rightarrow>
          if result = 0 then (True, s\<lparr>first_publish := False\<rparr>) else (False, s))"

definition publish :: "lib_outcome \<Rightarrow> bool \<Rightarrow> goose_publisher \<Rightarrow> bool \<times> goose_publisher" where
  "publish lib increase_stnum s =
     (if \<not> publisher s then (False, s)
      else if \<not> goose_enabled s then (False, s)
      else
        let (raised, s1) = (if \<not> dataset s then enable lib False s else (None, s)) in
        if raised \<noteq> None then (False, s1)
        else if \<not> dataset s1 then (False, s1)
        else if increase_stnum then
          (if \<not> increase_st_num_ok lib then (False, s1)
           else publish_send lib (s1\<lparr>st_num := st_num s1 + 1, sq_num := 0\<rparr>))
        else
          (let s2 = s1\<lparr>sq_num := sq_num s1 + 1\<rparr> in
           if \<not> set_sq_num_ok lib then (False, s2)
           else publish_send lib s2))"

text \<open>
  A sequence of \<open>publish\<close> calls, each with the library's outcome and its
  \<open>increase_stnum\<close> argument; the result lists what each call returned and the
  publisher after it.
\<close>

fun publish_seq :: "(lib_outcome \<times> bool) list \<Rightarrow> goose_publisher \<Rightarrow> (bool \<times> goose_publisher) list" where
  "publish_seq [] s = []"
| "publish_seq ((lib, increase_stnum) # calls) s =
     (let r = publish lib increase_stnum s in r # publish_seq calls (snd r))"

definition counters_before :: "goose_publisher \<Rightarrow> goose_publisher \<Rightarrow> bool" where
  "counters_before a b = (st_num a < st_num b \<or> (st_num a = st_num b \<and> sq_num a < sq_num b))"

text \<open>A publisher that is created, enabled and holds a dataset, and a library
  whose calls all succeed: the concrete inputs of the examples below.\<close>

definition ready_publisher :: goose_publisher where
  "ready_publisher = \<lparr>publisher = True, dataset = True, dataset_values = [MmsBoolean True],
     st_num = 0, sq_num = 0, goose_enabled = True, first_publish = True\<rparr>"

definition lib_ok :: lib_outcome where
  "lib_ok = \<lparr>list_created = True, increase_st_num_ok = True, set_sq_num_ok = True,
     publish_result = Some 0\<rparr>"

section \<open>The capture thread (Sniffer\_Page.py, class GOOSECaptureThread)\<close>

text \<open>
  The callback receives the dictionary built by the decoder (the record
  \<open>goose_data\<close>) and reads it with \<open>get(key, default)\<close>. A filter is a dictionary too; \<open>ip_unresolved\<close> is read
  with the default \<open>False\<close>, the other keys are tested with \<open>in\<close>.
  \<open>last_messages\<close> maps a goID to the stNum and sqNum stored for it.
\<close>

record capture_filter =
  ip_unresolved :: bool
  app_id :: "int option"
  mac :: "string option"
  resolved_mac :: "string option"

text \<open>
  The message handed to \<open>message_received.emit\<close>, without the two fields read
  from the clock (\<open>timestamp\<close>, \<open>relative_time\<close>). The keys \<open>app_id\<close>,
  \<open>st_num\<close>, \<open>sq_num\<close>, \<open>test\<close> and \<open>values\<close> carry the prefix
  \<open>msg_\<close> here.
\<close>

record goose_message =
  source_mac :: string
  dest_mac :: string
  msg_app_id :: int
  go_id :: string
  msg_st_num :: int
  msg_sq_num :: int
  go_cb_ref :: string
  dataset_ref :: string
  conf_rev :: int
  msg_test :: bool
  needs_comm :: bool
  time_allowed :: int
  entry_time :: int
  msg_values :: "pyval list"
  is_retransmission :: bool

record capture_thread =
  stop_event :: bool
  last_messages :: "string \<rightharpoonup> int \<times> int"
  show_retransmissions :: bool
  filters :: "capture_filter list option"
  message_count :: nat

definition init_capture_thread :: capture_thread where
  "init_capture_thread = \<lparr>stop_event = False, last_messages = Map.empty,
     show_retransmissions = True, filters = None, message_count = 0\<rparr>"

text \<open>\<open>str.lower()\<close> on the ASCII letters; MAC address text is ASCII.\<close>

definition char_lower :: "char \<Rightarrow> char" where
  "char_lower c =
     (let n = (of_char c :: nat) in if 65 \<le> n \<and> n \<le> 90 then char_of (n + 32) else c)"

definition lower :: "string \<Rightarrow> string" where
  "lower s = map char_lower s"

text \<open>
  The body of the loop of \<open>apply_enhanced_filters\<close> after the test of
  \<open>ip_unresolved\<close>: the value of \<open>match\<close> for one filter.
\<close>

definition filter_match :: "string \<Rightarrow> string \<Rightarrow> int \<Rightarrow> capture_filter \<Rightarrow> bool" where
  "filter_match src dst app f =
     (let match0 = (case app_id f of None \<Rightarrow> False | Some a \<Rightarrow> app = a);
          match1 = (case mac f of
                      None \<Rightarrow> match0
                    | Some m \<Rightarrow>
                        if \<not> match0 then
                          (let filter_mac = lower m in
                           if src = filter_mac \<or> dst = filter_mac then True else match0)
                        else match0);
          match2 = (case resolved_mac f of
                      None \<Rightarrow> match1
                    | Some m \<Rightarrow>
                        if \<not> match1 then
                          (let resolved = lower m in
                           if src = resolved \<or> dst = resolved then True else match1)
                        else match1)
      in match2)"

fun filters_loop :: "string \<Rightarrow> string \<Rightarrow> int \<Rightarrow> capture_filter list \<Rightarrow> bool" where
  "filters_loop src dst app [] = False"
| "filters_loop src dst app (f # rest) =
     (if ip_unresolved f then filters_loop src dst app rest
      else if filter_match src dst app f then True
      else filters_loop src dst app rest)"

definition apply_enhanced_filters :: "capture_thread \<Rightarrow> goose_data \<Rightarrow> bool" where
  "apply_enhanced_filters s gd =
     (case filters s of
        None \<Rightarrow> True
      | Some fs \<Rightarrow>
          if fs = [] then True
          else filters_loop (lower (dict_get (src_mac gd) [])) (lower (dict_get (dst_mac gd) []))
                 (dict_get (appId gd) 0) fs)"

text \<open>
  The first part of \<open>handle_goose_message\<close>: the value of the local
  \<open>is_retransmission\<close> and the map after the assignment to
  \<open>last_messages[go_id]\<close>.
\<close>

definition check_retransmission ::
  "(string \<rightharpoonup> int \<times> int) \<Rightarrow> goose_data \<Rightarrow> bool \<times> (string \<rightharpoonup> int \<times> int)" where
  "check_retransmission lm gd =
     (let g = dict_get (goID gd) [];
          st = dict_get (stNum gd) 0;
          sq = dict_get (sqNum gd) 0;
          retransmission =
            (case lm g of
               None \<Rightarrow> False
             | Some (last_st, last_sq) \<Rightarrow> st = last_st \<and> sq > 0)
      in (retransmission, lm(g \<mapsto> (st, sq))))"

definition handle_goose_message :: "goose_data \<Rightarrow> capture_thread \<Rightarrow> goose_message option \<times> capture_thread" where
  "handle_goose_message gd s =
     (if stop_event s then (None, s)
      else
        let (retransmission, lm) = check_retransmission (last_messages s) gd;
            s1 = s\<lparr>last_messages := lm\<rparr>
        in if retransmission \<and> \<not> show_retransmissions s1 then (None, s1)
           else if filters s1 \<noteq> None \<and> filters s1 \<noteq> Some [] \<and> \<not> apply_enhanced_filters s1 gd
             then (None, s1)
           else
             (Some \<lparr>source_mac = dict_get (src_mac gd) ''00:00:00:00:00:00'',
                     dest_mac = dict_get (dst_mac gd) ''01:0C:CD:01:00:00'',
                     msg_app_id = dict_get (appId gd) 0,
                     go_id = dict_get (goID gd) [],
                     msg_st_num = dict_get (stNum gd) 0,
                     msg_sq_num = dict_get (sqNum gd) 0,
                     go_cb_ref = dict_get (goCbRef gd) [],
                     dataset_ref = dict_get (dataSet gd) [],
                     conf_rev = dict_get (confRev gd) 0,
                     msg_test = dict_get (test gd) False,
                     needs_comm = dict_get (ndsCom gd) False,
                     time_allowed = dict_get (timeAllowedToLive gd) 0,
                     entry_time = dict_get (timestamp gd) 0,
                     msg_values = dict_get (values_list gd) [],
                     is_retransmission = retransmission\<rparr>,
              s1\<lparr>message_count := message_count s1 + 1\<rparr>))"

text \<open>The handler called on each message of a capture, in order.\<close>

fun handle_all :: "goose_data list \<Rightarrow> capture_thread \<Rightarrow> goose_message option list \<times> capture_thread" where
  "handle_all [] s = ([], s)"
| "handle_all (gd # rest) s =
     (let (m, s1) = handle_goose_message gd s;
          (ms, s2) = handle_all rest s1
      in (m # ms, s2))"

definition goose_msg :: "string \<Rightarrow> int \<Rightarrow> int \<Rightarrow> goose_data" where
  "goose_msg g st sq = empty_dict\<lparr>src_mac := Some ''00:11:22:33:44:55'',
     dst_mac := Some ''01:0c:cd:01:00:01'', appId := Some 4096, goID := Some g,
     stNum := Some st, sqNum := Some sq\<rparr>"

text \<open>
  The derived flag as the data model of the specification words it: a prior message
  with the same goId had the same stNum and a smaller or equal sqNum.
\<close>

definition spec_is_retransmission :: "goose_data list \<Rightarrow> nat \<Rightarrow> bool" where
  "spec_is_retransmission msgs i =
     list_ex (\<lambda>j. dict_get (goID (msgs ! j)) [] = dict_get (goID (msgs ! i)) [] \<and>
                  dict_get (stNum (msgs ! j)) 0 = dict_get (stNum (msgs ! i)) 0 \<and>
                  dict_get (sqNum (msgs ! j)) 0 \<le> dict_get (sqNum (msgs ! i)) 0) [0..<i]"

text \<open>Filters for the examples below: one on a MAC address, one on an APPID, and one
  whose IP address could not be resolved although its other keys are set.\<close>

definition filter_by_mac :: capture_filter where
  "filter_by_mac = \<lparr>ip_unresolved = False, app_id = None,
     mac = Some ''00:11:22:33:44:55'', resolved_mac = None\<rparr>"

definition filter_by_app_id :: capture_filter where
  "filter_by_app_id = \<lparr>ip_unresolved = False, app_id = Some 5, mac = None, resolved_mac = None\<rparr>"

definition filter_unresolved :: capture_filter where
  "filter_unresolved = \<lparr>ip_unresolved = True, app_id = Some 4096,
     mac = Some ''00:11:22:33:44:55'', resolved_mac = Some ''00:11:22:33:44:55''\<rparr>"

text \<open>The most recent message before position \<open>i\<close> that carries the goID of
  message \<open>i\<close>.\<close>

definition last_prior :: "goose_data list \<Rightarrow> nat \<Rightarrow> goose_data option" where
  "last_prior msgs i =
     find (\<lambda>x. dict_get (goID x) [] = dict_get (goID (msgs ! i)) []) (rev (take i msgs))"

section \<open>The retransmission worker (pyiec61850\_wrapper.py, publish\_with\_retransmission)\<close>




subsection \<open>The body of the worker, run to its end\<close>





subsection \<open>The publisher with its worker thread\<close>
















section \<open>Properties of the BER length decoder\<close>

lemma ber_length_octets_ok:
  "\<forall>i \<in> set idxs. pos + i < length data \<Longrightarrow> \<exists>len'. ber_length_octets data pos idxs len = Inr len'"
  by (induction idxs arbitrary: len) (auto simp: byte_at_def)

lemma parse_ber_length_ok: "\<exists>p l. parse_ber_length data pos = Inr (p, l)"
proof -
  have "\<exists>len'. ber_length_octets data (Suc pos) [0..<n] 0 = Inr len'"
    if "Suc (pos + n) \<le> length data" for n
    using that by (intro ber_length_octets_ok) auto
  then have "\<And>n e. Suc (pos + n) \<le> length data \<Longrightarrow>
      ber_length_octets data (Suc pos) [0..<n] 0 \<noteq> Inl e"
    by fastforce
  then show ?thesis
    unfolding parse_ber_length_def Let_def byte_at_def
    by (auto split: sum.splits simp: not_less)
qed

text \<open>
  C6. For a buffer whose length byte at \<open>pos\<close> is \<open>0x80\<close> (long form with zero
  following octets, the indefinite-length encoding), \<open>_parse_ber_length\<close> does not
  raise: it returns the position after that byte and the length 0. It returns the
  same when the long form announces more length octets than the buffer still holds.
\<close>

theorem parse_ber_length_indefinite:
  "(pos < length data \<and> data ! pos = 0x80 \<longrightarrow>
      parse_ber_length data pos = Inr (pos + 1, 0)) \<and>
   (pos < length data \<and> data ! pos AND 0x80 \<noteq> 0 \<and>
    pos + 1 + unat (data ! pos AND 0x7F) > length data \<longrightarrow>
      parse_ber_length data pos = Inr (pos + 1, 0))"
  unfolding parse_ber_length_def Let_def byte_at_def
  by auto

theorem parse_ber_length_indefinite_witness:
  "parse_ber_length [0x30, 0x80, 0x01] 1 = Inr (2, 0) \<and>
   parse_ber_length [0x82, 0x01] 0 = Inr (1, 0)"
  using parse_ber_length_indefinite [of 1 "[0x30, 0x80, 0x01]"]
    parse_ber_length_indefinite [of 0 "[0x82, 0x01]"]
  by simp

section \<open>Properties of the publisher\<close>

lemma publish_send_counters:
  "st_num (snd (publish_send lib s)) = st_num s \<and> sq_num (snd (publish_send lib s)) = sq_num s"
  by (simp add: publish_send_def split: option.splits)

lemma enable_counters:
  "st_num (snd (enable lib cd s)) = st_num s \<and> sq_num (snd (enable lib cd s)) = sq_num s"
  by (simp add: enable_def Let_def add_boolean_value_def)

lemma publish_increase:
  "fst (publish lib True s) \<Longrightarrow>
     st_num (snd (publish lib True s)) = st_num s + 1 \<and> sq_num (snd (publish lib True s)) = 0"
  using enable_counters [of lib False s]
  by (auto simp: publish_def publish_send_counters split: if_splits prod.splits)

lemma publish_no_increase:
  "fst (publish lib False s) \<Longrightarrow>
     st_num (snd (publish lib False s)) = st_num s \<and>
     sq_num (snd (publish lib False s)) = sq_num s + 1"
  using enable_counters [of lib False s]
  by (auto simp: publish_def Let_def publish_send_counters split: if_splits prod.splits)

lemma publish_step:
  "fst (publish lib inc s) \<Longrightarrow>
     (inc \<longrightarrow> st_num (snd (publish lib inc s)) = st_num s + 1 \<and> sq_num (snd (publish lib inc s)) = 0) \<and>
     (\<not> inc \<longrightarrow> st_num (snd (publish lib inc s)) = st_num s \<and>
        sq_num (snd (publish lib inc s)) = sq_num s + 1)"
  using publish_increase publish_no_increase by (cases inc) auto

lemma counters_before_trans:
  "counters_before a b \<Longrightarrow> counters_before b c \<Longrightarrow> counters_before a c"
  by (auto simp: counters_before_def)

lemma publish_step_before:
  "fst (publish lib inc s) \<Longrightarrow> counters_before s (snd (publish lib inc s))"
  using publish_step [of lib inc s] by (cases inc) (auto simp: counters_before_def)

lemma publish_step_sq_nonneg:
  "fst (publish lib inc s) \<Longrightarrow> 0 \<le> sq_num s \<Longrightarrow> 0 \<le> sq_num (snd (publish lib inc s))"
  using publish_step [of lib inc s] by (cases inc) auto

lemma publish_seq_before:
  "\<forall>r \<in> set (publish_seq calls s). fst r \<Longrightarrow>
     \<forall>x \<in> set (map snd (publish_seq calls s)). counters_before s x"
proof (induction calls arbitrary: s)
  case Nil
  then show ?case by simp
next
  case (Cons c calls)
  obtain lib inc where c: "c = (lib, inc)" by (cases c)
  let ?r = "publish lib inc s"
  from Cons.prems c have ok: "fst ?r" and rest: "\<forall>r \<in> set (publish_seq calls (snd ?r)). fst r"
    by (simp_all add: Let_def)
  have b: "counters_before s (snd ?r)" using ok by (rule publish_step_before)
  from Cons.IH [OF rest] have "\<forall>x \<in> set (map snd (publish_seq calls (snd ?r))). counters_before (snd ?r) x" .
  with b show ?case
    by (auto simp: c Let_def intro: counters_before_trans)
qed

lemma publish_seq_sorted:
  "\<forall>r \<in> set (publish_seq calls s). fst r \<Longrightarrow>
     sorted_wrt counters_before (s # map snd (publish_seq calls s))"
proof (induction calls arbitrary: s)
  case Nil
  then show ?case by simp
next
  case (Cons c calls)
  obtain lib inc where c: "c = (lib, inc)" by (cases c)
  let ?r = "publish lib inc s"
  from Cons.prems c have rest: "\<forall>r \<in> set (publish_seq calls (snd ?r)). fst r"
    by (simp_all add: Let_def)
  from Cons.IH [OF rest] have "sorted_wrt counters_before (snd ?r # map snd (publish_seq calls (snd ?r)))" .
  moreover have "\<forall>x \<in> set (map snd (publish_seq (c # calls) s)). counters_before s x"
    using Cons.prems by (rule publish_seq_before)
  ultimately show ?case
    by (simp add: c Let_def)
qed

lemma publish_seq_steps:
  "\<forall>r \<in> set (publish_seq calls s). fst r \<Longrightarrow> 0 \<le> sq_num s \<Longrightarrow> i < length calls \<Longrightarrow>
     (snd (calls ! i) \<longrightarrow>
        st_num ((s # map snd (publish_seq calls s)) ! Suc i) =
          st_num ((s # map snd (publish_seq calls s)) ! i) + 1 \<and>
        sq_num ((s # map snd (publish_seq calls s)) ! Suc i) = 0) \<and>
     (\<not> snd (calls ! i) \<longrightarrow>
        st_num ((s # map snd (publish_seq calls s)) ! Suc i) =
          st_num ((s # map snd (publish_seq calls s)) ! i) \<and>
        sq_num ((s # map snd (publish_seq calls s)) ! Suc i) =
          sq_num ((s # map snd (publish_seq calls s)) ! i) + 1) \<and>
     (sq_num ((s # map snd (publish_seq calls s)) ! Suc i) = 0 \<longleftrightarrow>
        st_num ((s # map snd (publish_seq calls s)) ! Suc i) \<noteq>
          st_num ((s # map snd (publish_seq calls s)) ! i))"
proof (induction calls arbitrary: s i)
  case Nil
  then show ?case by simp
next
  case (Cons c calls)
  obtain lib inc where c: "c = (lib, inc)" by (cases c)
  let ?r = "publish lib inc s"
  from Cons.prems c have ok: "fst ?r" and rest: "\<forall>r \<in> set (publish_seq calls (snd ?r)). fst r"
    by (simp_all add: Let_def)
  have nn: "0 \<le> sq_num (snd ?r)" using ok Cons.prems(2) by (rule publish_step_sq_nonneg)
  show ?case
  proof (cases i)
    case 0
    with publish_step [OF ok] Cons.prems(2) show ?thesis
      by (cases inc) (auto simp: c Let_def)
  next
    case (Suc j)
    with Cons.prems have j: "j < length calls" by simp
    from Cons.IH [OF rest nn j] show ?thesis
      by (simp add: c Let_def Suc)
  qed
qed

text \<open>
  C2. A \<open>publish(increase_stnum=True)\<close> that returns \<open>True\<close> leaves stNum one
  above its previous value and sqNum at 0; a \<open>publish(increase_stnum=False)\<close> that
  returns \<open>True\<close> leaves stNum unchanged and sqNum one above its previous value.
  Hence along any sequence of successful calls, started with sqNum not negative (as
  the constructor leaves it): every call with the flag raises stNum by one, every call
  without it raises sqNum by one within the same stNum, sqNum is 0 after a call exactly
  when that call changed stNum, and the pairs (stNum, sqNum) strictly increase in the
  lexicographic order over the whole sequence.
\<close>

theorem publish_counters:
  "(fst (publish lib True s) \<longrightarrow>
      st_num (snd (publish lib True s)) = st_num s + 1 \<and> sq_num (snd (publish lib True s)) = 0) \<and>
   (fst (publish lib False s) \<longrightarrow>
      st_num (snd (publish lib False s)) = st_num s \<and>
      sq_num (snd (publish lib False s)) = sq_num s + 1) \<and>
   (0 \<le> sq_num s \<and> (\<forall>r \<in> set (publish_seq calls s). fst r) \<longrightarrow>
      (\<forall>i < length calls.
         (snd (calls ! i) \<longrightarrow>
            st_num ((s # map snd (publish_seq calls s)) ! Suc i) =
              st_num ((s # map snd (publish_seq calls s)) ! i) + 1 \<and>
            sq_num ((s # map snd (publish_seq calls s)) ! Suc i) = 0) \<and>
         (\<not> snd (calls ! i) \<longrightarrow>
            st_num ((s # map snd (publish_seq calls s)) ! Suc i) =
              st_num ((s # map snd (publish_seq calls s)) ! i) \<and>
            sq_num ((s # map snd (publish_seq calls s)) ! Suc i) =
              sq_num ((s # map snd (publish_seq calls s)) ! i) + 1) \<and>
         (sq_num ((s # map snd (publish_seq calls s)) ! Suc i) = 0 \<longleftrightarrow>
            st_num ((s # map snd (publish_seq calls s)) ! Suc i) \<noteq>
              st_num ((s # map snd (publish_seq calls s)) ! i))) \<and>
      sorted_wrt counters_before (s # map snd (publish_seq calls s)))"
  (is "?A \<and> ?B \<and> (?H \<longrightarrow> ?C \<and> ?D)")
proof -
  have a: ?A using publish_increase [of lib s] by blast
  have b: ?B using publish_no_increase [of lib s] by blast
  have c: ?C if ?H using that publish_seq_steps [of calls s] by blast
  have d: ?D if ?H using that publish_seq_sorted [of calls s] by blast
  from a b c d show ?thesis by blast
qed

theorem publish_counters_witness:
  "0 \<le> sq_num ready_publisher \<and>
   map fst (publish_seq [(lib_ok, True), (lib_ok, False), (lib_ok, False), (lib_ok, True)]
      ready_publisher) = [True, True, True, True] \<and>
   map (\<lambda>p. (st_num p, sq_num p))
     (ready_publisher # map snd (publish_seq
        [(lib_ok, True), (lib_ok, False), (lib_ok, False), (lib_ok, True)] ready_publisher)) =
     [(0, 0), (1, 0), (1, 1), (1, 2), (2, 0)] \<and>
   sorted_wrt counters_before
     (ready_publisher # map snd (publish_seq
        [(lib_ok, True), (lib_ok, False), (lib_ok, False), (lib_ok, True)] ready_publisher))"
  using publish_counters [of lib_ok ready_publisher
      "[(lib_ok, True), (lib_ok, False), (lib_ok, False), (lib_ok, True)]"]
  by (simp add: publish_def publish_send_def lib_ok_def ready_publisher_def Let_def)

text \<open>
  C10. When \<open>publish\<close> fails because the publisher handle is absent, because
  GOOSE publishing is not enabled, or because no dataset is available (there is none
  and \<open>enable\<close> cannot build one: no dataset values, or the list cannot be
  created), it returns \<open>False\<close> and stNum and sqNum are what they were before
  the call.
\<close>

theorem publish_failure_keeps_counters:
  "\<not> publisher s \<or> \<not> goose_enabled s \<or>
   (\<not> dataset s \<and> (dataset_values s = [] \<or> \<not> list_created lib)) \<longrightarrow>
     \<not> fst (publish lib increase_stnum s) \<and>
     st_num (snd (publish lib increase_stnum s)) = st_num s \<and>
     sq_num (snd (publish lib increase_stnum s)) = sq_num s"
  by (auto simp: publish_def enable_def Let_def add_boolean_value_def split: prod.splits if_splits)

theorem publish_failure_keeps_counters_witness:
  "\<not> publisher init_publisher \<and>
   publish lib_ok True init_publisher = (False, init_publisher) \<and>
   \<not> goose_enabled (ready_publisher\<lparr>goose_enabled := False\<rparr>) \<and>
   \<not> fst (publish lib_ok False (ready_publisher\<lparr>goose_enabled := False\<rparr>)) \<and>
   sq_num (snd (publish lib_ok False (ready_publisher\<lparr>goose_enabled := False\<rparr>))) = 0 \<and>
   \<not> dataset (ready_publisher\<lparr>dataset := False\<rparr>) \<and>
   \<not> list_created (lib_ok\<lparr>list_created := False\<rparr>) \<and>
   \<not> fst (publish (lib_ok\<lparr>list_created := False\<rparr>) True (ready_publisher\<lparr>dataset := False\<rparr>)) \<and>
   st_num (snd (publish (lib_ok\<lparr>list_created := False\<rparr>) True
     (ready_publisher\<lparr>dataset := False\<rparr>))) = 0"
  using publish_failure_keeps_counters [of init_publisher lib_ok True]
    publish_failure_keeps_counters [of "ready_publisher\<lparr>goose_enabled := False\<rparr>" lib_ok False]
    publish_failure_keeps_counters [of "ready_publisher\<lparr>dataset := False\<rparr>"
      "lib_ok\<lparr>list_created := False\<rparr>" True]
  by (simp add: publish_def init_publisher_def lib_ok_def ready_publisher_def)

section \<open>Properties of the capture thread\<close>

lemma filters_loop_iff:
  "filters_loop src dst app fs \<longleftrightarrow>
     (\<exists>f \<in> set fs. \<not> ip_unresolved f \<and> filter_match src dst app f)"
  by (induction fs) auto

lemma filter_match_iff:
  "filter_match src dst app f \<longleftrightarrow>
     (app_id f = Some app \<or>
      (\<exists>m. mac f = Some m \<and> (src = lower m \<or> dst = lower m)) \<or>
      (\<exists>m. resolved_mac f = Some m \<and> (src = lower m \<or> dst = lower m)))"
  by (auto simp: filter_match_def Let_def split: option.splits)

lemma handle_emits_iff:
  "\<not> stop_event s \<Longrightarrow>
     fst (handle_goose_message gd s) \<noteq> None \<longleftrightarrow>
       \<not> (fst (check_retransmission (last_messages s) gd) \<and> \<not> show_retransmissions s) \<and>
       apply_enhanced_filters s gd"
  by (auto simp: handle_goose_message_def Let_def apply_enhanced_filters_def
      split: prod.splits option.splits)

text \<open>
  C5. With a non-empty filter list, \<open>apply_enhanced_filters\<close> accepts a message
  exactly when some filter of the list that is not flagged \<open>ip_unresolved\<close> matches
  it: its APPID is the message's, or its MAC or its resolved MAC is the message's source
  or destination MAC (compared in lower case). A list of unresolved filters only
  accepts nothing, whatever their other keys hold. In the handler, a message that is
  not dropped as a hidden retransmission is emitted exactly when the filters accept it.
\<close>

theorem apply_enhanced_filters_or:
  "filters s = Some fs \<and> fs \<noteq> [] \<longrightarrow>
     (apply_enhanced_filters s gd \<longleftrightarrow>
        (\<exists>f \<in> set fs. \<not> ip_unresolved f \<and>
           (app_id f = Some (dict_get (appId gd) 0) \<or>
            (\<exists>m. mac f = Some m \<and>
               (lower (dict_get (src_mac gd) []) = lower m \<or>
                lower (dict_get (dst_mac gd) []) = lower m)) \<or>
            (\<exists>m. resolved_mac f = Some m \<and>
               (lower (dict_get (src_mac gd) []) = lower m \<or>
                lower (dict_get (dst_mac gd) []) = lower m))))) \<and>
     ((\<forall>f \<in> set fs. ip_unresolved f) \<longrightarrow> \<not> apply_enhanced_filters s gd) \<and>
     (\<not> stop_event s \<and>
      \<not> (fst (check_retransmission (last_messages s) gd) \<and> \<not> show_retransmissions s) \<longrightarrow>
        (fst (handle_goose_message gd s) \<noteq> None \<longleftrightarrow> apply_enhanced_filters s gd))"
  using handle_emits_iff [of s gd]
  by (auto simp: apply_enhanced_filters_def filters_loop_iff filter_match_iff)

lemma lower_mac_example [simp]: "lower ''00:11:22:33:44:55'' = ''00:11:22:33:44:55''"
  by (simp add: lower_def char_lower_def)

lemma lower_mac_example2 [simp]: "lower ''01:0c:cd:01:00:01'' = ''01:0c:cd:01:00:01''"
  by (simp add: lower_def char_lower_def)

theorem apply_enhanced_filters_or_witness:
  "filters (init_capture_thread\<lparr>filters := Some [filter_by_mac, filter_by_app_id]\<rparr>) =
     Some [filter_by_mac, filter_by_app_id] \<and>
   [filter_by_mac, filter_by_app_id] \<noteq> [] \<and>
   apply_enhanced_filters (init_capture_thread\<lparr>filters := Some [filter_by_mac, filter_by_app_id]\<rparr>)
     (goose_msg ''G1'' 5 0) \<and>
   \<not> stop_event (init_capture_thread\<lparr>filters := Some [filter_by_mac, filter_by_app_id]\<rparr>) \<and>
   fst (handle_goose_message (goose_msg ''G1'' 5 0)
     (init_capture_thread\<lparr>filters := Some [filter_by_mac, filter_by_app_id]\<rparr>)) \<noteq> None \<and>
   \<not> apply_enhanced_filters (init_capture_thread\<lparr>filters := Some [filter_by_mac, filter_by_app_id]\<rparr>)
     ((goose_msg ''G1'' 5 0)\<lparr>src_mac := Some ''00:11:22:33:44:66''\<rparr>) \<and>
   apply_enhanced_filters (init_capture_thread\<lparr>filters := Some [filter_by_mac, filter_by_app_id]\<rparr>)
     ((goose_msg ''G1'' 5 0)\<lparr>src_mac := Some ''00:11:22:33:44:66'', appId := Some 5\<rparr>) \<and>
   \<not> apply_enhanced_filters (init_capture_thread\<lparr>filters := Some [filter_unresolved]\<rparr>)
     (goose_msg ''G1'' 5 0)"
  using apply_enhanced_filters_or [of "init_capture_thread\<lparr>filters := Some [filter_by_mac, filter_by_app_id]\<rparr>"
      "[filter_by_mac, filter_by_app_id]" "goose_msg ''G1'' 5 0"]
    apply_enhanced_filters_or [of "init_capture_thread\<lparr>filters := Some [filter_by_mac, filter_by_app_id]\<rparr>"
      "[filter_by_mac, filter_by_app_id]" "(goose_msg ''G1'' 5 0)\<lparr>src_mac := Some ''00:11:22:33:44:66''\<rparr>"]
    apply_enhanced_filters_or [of "init_capture_thread\<lparr>filters := Some [filter_by_mac, filter_by_app_id]\<rparr>"
      "[filter_by_mac, filter_by_app_id]"
      "(goose_msg ''G1'' 5 0)\<lparr>src_mac := Some ''00:11:22:33:44:66'', appId := Some 5\<rparr>"]
    apply_enhanced_filters_or [of "init_capture_thread\<lparr>filters := Some [filter_unresolved]\<rparr>"
      "[filter_unresolved]" "goose_msg ''G1'' 5 0"]
  by (simp add: init_capture_thread_def filter_by_mac_def filter_by_app_id_def filter_unresolved_def
      goose_msg_def empty_dict_def dict_get_def check_retransmission_def lower_def char_lower_def)

lemma check_retransmission_flag:
  "fst (check_retransmission lm gd) \<longleftrightarrow>
     (\<exists>last_sq. lm (dict_get (goID gd) []) = Some (dict_get (stNum gd) 0, last_sq)) \<and>
     dict_get (sqNum gd) 0 > 0"
  by (auto simp: check_retransmission_def Let_def split: option.splits)

lemma check_retransmission_map:
  "snd (check_retransmission lm gd) =
     lm(dict_get (goID gd) [] \<mapsto> (dict_get (stNum gd) 0, dict_get (sqNum gd) 0))"
  by (simp add: check_retransmission_def Let_def)

lemma handle_last_messages:
  "\<not> stop_event s \<Longrightarrow>
     last_messages (snd (handle_goose_message gd s)) = snd (check_retransmission (last_messages s) gd)"
  by (simp add: handle_goose_message_def Let_def split: prod.splits)

lemma handle_flag:
  "fst (handle_goose_message gd s) = Some m \<Longrightarrow>
     is_retransmission m = fst (check_retransmission (last_messages s) gd)"
  by (auto simp: handle_goose_message_def Let_def split: prod.splits if_splits)

lemma handle_stop_event: "stop_event (snd (handle_goose_message gd s)) = stop_event s"
  by (simp add: handle_goose_message_def Let_def split: prod.splits)

lemma handle_all_Cons:
  "handle_all (gd # rest) s =
     (fst (handle_goose_message gd s) # fst (handle_all rest (snd (handle_goose_message gd s))),
      snd (handle_all rest (snd (handle_goose_message gd s))))"
  by (simp split: prod.splits)

lemma handle_all_stop_event: "stop_event (snd (handle_all msgs s)) = stop_event s"
  by (induction msgs arbitrary: s) (simp_all add: handle_all_Cons handle_stop_event del: handle_all.simps(2))

lemma handle_all_append:
  "handle_all (xs @ ys) s =
     (fst (handle_all xs s) @ fst (handle_all ys (snd (handle_all xs s))),
      snd (handle_all ys (snd (handle_all xs s))))"
  by (induction xs arbitrary: s) (simp_all add: handle_all_Cons del: handle_all.simps(2))

lemma handle_all_length: "length (fst (handle_all msgs s)) = length msgs"
  by (induction msgs arbitrary: s) (simp_all add: handle_all_Cons del: handle_all.simps(2))

lemma handle_all_nth:
  assumes "i < length msgs"
  shows "fst (handle_all msgs s) ! i =
           fst (handle_goose_message (msgs ! i) (snd (handle_all (take i msgs) s)))"
proof -
  have "msgs = take i msgs @ msgs ! i # drop (Suc i) msgs"
    using assms by (simp add: id_take_nth_drop)
  then have "fst (handle_all msgs s) ! i =
      fst (handle_all (take i msgs @ msgs ! i # drop (Suc i) msgs) s) ! i" by simp
  also have "\<dots> = fst (handle_all (msgs ! i # drop (Suc i) msgs) (snd (handle_all (take i msgs) s))) ! 0"
    using assms by (simp add: handle_all_append nth_append handle_all_length)
  also have "\<dots> = fst (handle_goose_message (msgs ! i) (snd (handle_all (take i msgs) s)))"
    by (simp add: handle_all_Cons del: handle_all.simps(2))
  finally show ?thesis .
qed

lemma handle_all_take_Suc:
  assumes "i < length msgs"
  shows "snd (handle_all (take (Suc i) msgs) s) =
           snd (handle_goose_message (msgs ! i) (snd (handle_all (take i msgs) s)))"
  using assms
  by (simp add: take_Suc_conv_app_nth handle_all_append handle_all_Cons del: handle_all.simps(2))

text \<open>
  C4. For every sequence of messages handled while the stop event is clear, and
  every position \<open>i\<close> in it: message \<open>i\<close> is marked a retransmission exactly
  when the map holds an entry for its goID whose stNum is the message's and the
  message's sqNum is above 0; an emitted message carries that mark; after the
  message the map holds the message's (stNum, sqNum) for its goID, marked or not; and
  a message whose stNum differs from the stored one is not marked. In the capture
  (G1, 5, 0), (G1, 5, 1) the first message is not a retransmission and the second is.
\<close>

theorem retransmission_check:
  "(\<not> stop_event s \<and> i < length msgs \<longrightarrow>
      (fst (check_retransmission (last_messages (snd (handle_all (take i msgs) s))) (msgs ! i)) \<longleftrightarrow>
         (\<exists>last_sq. last_messages (snd (handle_all (take i msgs) s)) (dict_get (goID (msgs ! i)) []) =
            Some (dict_get (stNum (msgs ! i)) 0, last_sq)) \<and>
         dict_get (sqNum (msgs ! i)) 0 > 0) \<and>
      (\<forall>m. fst (handle_all msgs s) ! i = Some m \<longrightarrow>
         is_retransmission m =
           fst (check_retransmission (last_messages (snd (handle_all (take i msgs) s))) (msgs ! i))) \<and>
      last_messages (snd (handle_all (take (Suc i) msgs) s)) =
        (last_messages (snd (handle_all (take i msgs) s)))
          (dict_get (goID (msgs ! i)) [] \<mapsto>
             (dict_get (stNum (msgs ! i)) 0, dict_get (sqNum (msgs ! i)) 0)) \<and>
      ((\<forall>e. last_messages (snd (handle_all (take i msgs) s)) (dict_get (goID (msgs ! i)) []) = Some e
            \<longrightarrow> fst e \<noteq> dict_get (stNum (msgs ! i)) 0) \<longrightarrow>
         \<not> fst (check_retransmission (last_messages (snd (handle_all (take i msgs) s))) (msgs ! i)))) \<and>
   map (map_option is_retransmission)
     (fst (handle_all [goose_msg ''G1'' 5 0, goose_msg ''G1'' 5 1] init_capture_thread)) =
     [Some False, Some True]"
  (is "(?H \<longrightarrow> ?A \<and> ?B \<and> ?C \<and> ?D) \<and> ?E")
proof -
  let ?si = "snd (handle_all (take i msgs) s)"
  have a: ?A by (rule check_retransmission_flag)
  have b: ?B if ?H
    using that handle_flag [of "msgs ! i" ?si] by (simp add: handle_all_nth)
  have ns: "\<not> stop_event ?si" if ?H using that by (simp add: handle_all_stop_event)
  have c: ?C if ?H
    using that handle_last_messages [OF ns [OF that], of "msgs ! i"]
    by (simp add: handle_all_take_Suc check_retransmission_map)
  have d: ?D
    by (auto simp: check_retransmission_flag)
  have e: ?E
    by (simp add: handle_goose_message_def check_retransmission_def init_capture_thread_def
        goose_msg_def empty_dict_def dict_get_def Let_def)
  from a b c d e show ?thesis by blast
qed

theorem retransmission_check_witness:
  "\<not> stop_event init_capture_thread \<and>
   (1::nat) < length [goose_msg ''G1'' 5 0, goose_msg ''G1'' 5 1, goose_msg ''G1'' 6 0] \<and>
   fst (check_retransmission (last_messages (snd (handle_all
      (take 1 [goose_msg ''G1'' 5 0, goose_msg ''G1'' 5 1, goose_msg ''G1'' 6 0]) init_capture_thread)))
      ([goose_msg ''G1'' 5 0, goose_msg ''G1'' 5 1, goose_msg ''G1'' 6 0] ! 1)) \<and>
   last_messages (snd (handle_all
      (take (Suc 1) [goose_msg ''G1'' 5 0, goose_msg ''G1'' 5 1, goose_msg ''G1'' 6 0])
      init_capture_thread)) ''G1'' = Some (5, 1) \<and>
   map (map_option is_retransmission)
     (fst (handle_all [goose_msg ''G1'' 5 0, goose_msg ''G1'' 5 1, goose_msg ''G1'' 6 0]
        init_capture_thread)) = [Some False, Some True, Some False]"
  using retransmission_check [of init_capture_thread 1
      "[goose_msg ''G1'' 5 0, goose_msg ''G1'' 5 1, goose_msg ''G1'' 6 0]"]
  by (simp add: handle_goose_message_def check_retransmission_def init_capture_thread_def
        goose_msg_def empty_dict_def dict_get_def Let_def)

lemma handle_all_last_messages:
  "\<not> stop_event s \<Longrightarrow>
     last_messages (snd (handle_all xs s)) g =
       (case find (\<lambda>x. dict_get (goID x) [] = g) (rev xs) of
          None \<Rightarrow> last_messages s g
        | Some x \<Rightarrow> Some (dict_get (stNum x) 0, dict_get (sqNum x) 0))"
proof (induction xs rule: rev_induct)
  case Nil
  then show ?case by simp
next
  case (snoc x xs)
  have "\<not> stop_event (snd (handle_all xs s))"
    using snoc.prems by (simp add: handle_all_stop_event)
  then show ?case
    using snoc
    by (simp add: handle_all_append handle_all_Cons handle_last_messages check_retransmission_map
        del: handle_all.simps(2))
qed

text \<open>
  C9, as the code has it. In a capture started with an empty map, the flag of an
  emitted message is true exactly when the most recent earlier message with the same
  goID had the same stNum and the message's own sqNum is above 0. The sqNum of the
  earlier message is not compared.
\<close>

theorem retransmission_flag_last_prior:
  "\<not> stop_event s \<and> last_messages s = Map.empty \<and> i < length msgs \<longrightarrow>
     (\<forall>m. fst (handle_all msgs s) ! i = Some m \<longrightarrow>
        (is_retransmission m \<longleftrightarrow>
           (case last_prior msgs i of
              None \<Rightarrow> False
            | Some prev \<Rightarrow>
                dict_get (stNum prev) 0 = dict_get (stNum (msgs ! i)) 0 \<and>
                dict_get (sqNum (msgs ! i)) 0 > 0)))"
proof (intro impI allI)
  fix m
  assume h: "\<not> stop_event s \<and> last_messages s = Map.empty \<and> i < length msgs"
    and m: "fst (handle_all msgs s) ! i = Some m"
  let ?si = "snd (handle_all (take i msgs) s)"
  from h m have "fst (handle_goose_message (msgs ! i) ?si) = Some m"
    by (simp add: handle_all_nth)
  then have "is_retransmission m = fst (check_retransmission (last_messages ?si) (msgs ! i))"
    by (rule handle_flag)
  moreover have "last_messages ?si (dict_get (goID (msgs ! i)) []) =
      (case last_prior msgs i of None \<Rightarrow> None
       | Some x \<Rightarrow> Some (dict_get (stNum x) 0, dict_get (sqNum x) 0))"
    using h by (auto simp: handle_all_last_messages last_prior_def split: option.splits)
  ultimately show "is_retransmission m \<longleftrightarrow>
           (case last_prior msgs i of
              None \<Rightarrow> False
            | Some prev \<Rightarrow>
                dict_get (stNum prev) 0 = dict_get (stNum (msgs ! i)) 0 \<and>
                dict_get (sqNum (msgs ! i)) 0 > 0)"
    by (auto simp: check_retransmission_flag split: option.splits)
qed

theorem retransmission_flag_last_prior_witness:
  "\<not> stop_event init_capture_thread \<and> last_messages init_capture_thread = Map.empty \<and>
   (2::nat) < length [goose_msg ''G1'' 5 0, goose_msg ''G2'' 5 0, goose_msg ''G1'' 5 1] \<and>
   map (map_option is_retransmission)
     (fst (handle_all [goose_msg ''G1'' 5 0, goose_msg ''G2'' 5 0, goose_msg ''G1'' 5 1]
        init_capture_thread)) = [Some False, Some False, Some True] \<and>
   last_prior [goose_msg ''G1'' 5 0, goose_msg ''G2'' 5 0, goose_msg ''G1'' 5 1] 2 =
     Some (goose_msg ''G1'' 5 0)"
  using retransmission_flag_last_prior [of init_capture_thread 2
      "[goose_msg ''G1'' 5 0, goose_msg ''G2'' 5 0, goose_msg ''G1'' 5 1]"]
  by (simp add: handle_goose_message_def check_retransmission_def init_capture_thread_def
        goose_msg_def empty_dict_def dict_get_def Let_def last_prior_def)

text \<open>
  C9 as stated fails in three captures: after (5, 3) the message (5, 1) is marked
  although no earlier sqNum is smaller or equal; a second (5, 0) is not marked
  although an equal sqNum was seen; and (5, 1) after (5, 0), (6, 0) is not marked
  although (5, 0) was seen.
\<close>

theorem spec_is_retransmission_counterexample:
  "\<not> spec_is_retransmission [goose_msg ''G1'' 5 3, goose_msg ''G1'' 5 1] 1 \<and>
   map (map_option is_retransmission)
     (fst (handle_all [goose_msg ''G1'' 5 3, goose_msg ''G1'' 5 1] init_capture_thread)) =
     [Some False, Some True] \<and>
   spec_is_retransmission [goose_msg ''G1'' 5 0, goose_msg ''G1'' 5 0] 1 \<and>
   map (map_option is_retransmission)
     (fst (handle_all [goose_msg ''G1'' 5 0, goose_msg ''G1'' 5 0] init_capture_thread)) =
     [Some False, Some False] \<and>
   spec_is_retransmission [goose_msg ''G1'' 5 0, goose_msg ''G1'' 6 0, goose_msg ''G1'' 5 1] 2 \<and>
   map (map_option is_retransmission)
     (fst (handle_all [goose_msg ''G1'' 5 0, goose_msg ''G1'' 6 0, goose_msg ''G1'' 5 1]
        init_capture_thread)) = [Some False, Some False, Some False]"
  by (simp add: spec_is_retransmission_def handle_goose_message_def check_retransmission_def
        init_capture_thread_def goose_msg_def empty_dict_def dict_get_def Let_def numeral_2_eq_2)

section \<open>Properties of the retransmission worker\<close>





















section \<open>Properties of the decoder\<close>

lemma length_slice: "pos + len \<le> length data \<Longrightarrow> length (slice data pos (pos + len)) = len"
  by (simp add: slice_def)

lemma parse_data_value_ok:
  assumes "pos + len \<le> length data"
  shows "\<exists>v. parse_data_value decode now data pos len tag = Inr v"
proof -
  have b: "byte_at data pos = Inr (data ! pos)" if "len > 0"
    using assms that by (simp add: byte_at_def)
  have f: "unpack_float len (slice data pos (pos + len)) = Inr (PFloat (slice data pos (pos + len)))"
    using assms by (simp add: unpack_float_def length_slice)
  show ?thesis
    unfolding parse_data_value_def Let_def
    using b f by auto
qed

lemma all_data_step_ok: "\<exists>r. all_data_step decode now data pos vals = Inr r"
proof -
  obtain p l where "parse_ber_length data (pos + 1) = Inr (p, l)"
    using parse_ber_length_ok by blast
  then show ?thesis
    unfolding all_data_step_def Let_def byte_at_def by auto
qed

lemma parse_all_data_loop_ok: "fst (parse_all_data_loop decode now data pos vals) = None"
proof (induction decode now data pos vals rule: parse_all_data_loop.induct)
  case (1 decode now data pos vals)
  obtain r where r: "all_data_step decode now data pos vals = Inr r"
    using all_data_step_ok by blast
  show ?case
  proof (cases "int pos < int (length data) - 1")
    case False
    then show ?thesis by (simp add: parse_all_data_loop.simps)
  next
    case True
    show ?thesis
    proof (cases r)
      case None
      with r True show ?thesis by (simp add: parse_all_data_loop.simps)
    next
      case (Some a)
      obtain pos' vals' where a: "a = (pos', vals')" by (cases a)
      from "1.IH" [OF True r Some a [symmetric]] r Some a True show ?thesis
        by (subst parse_all_data_loop.simps) simp
    qed
  qed
qed

lemma parse_pdu_field_ok:
  assumes "pos + len \<le> length data"
  shows "\<exists>r. parse_pdu_field decode now data pos len tag result = Inr r"
proof -
  have b: "byte_at data pos = Inr (data ! pos)" if "len > 0"
    using assms that by (simp add: byte_at_def)
  show ?thesis
    unfolding parse_pdu_field_def Let_def
    using b by auto
qed

lemma goose_pdu_step_ok: "\<exists>r. goose_pdu_step decode now data pos result = Inr r"
proof -
  obtain p l where "parse_ber_length data (pos + 1) = Inr (p, l)"
    using parse_ber_length_ok by blast
  then show ?thesis
    unfolding goose_pdu_step_def Let_def byte_at_def by auto
qed

lemma parse_goose_pdu_loop_ok: "fst (parse_goose_pdu_loop decode now data pos result) = None"
proof (induction decode now data pos result rule: parse_goose_pdu_loop.induct)
  case (1 decode now data pos result)
  obtain r where r: "goose_pdu_step decode now data pos result = Inr r"
    using goose_pdu_step_ok by blast
  show ?case
  proof (cases "int pos < int (length data) - 1")
    case False
    then show ?thesis by (simp add: parse_goose_pdu_loop.simps)
  next
    case True
    show ?thesis
    proof (cases r)
      case None
      with r True show ?thesis by (simp add: parse_goose_pdu_loop.simps)
    next
      case (Some a)
      obtain pos' result' where a: "a = (pos', result')" by (cases a)
      from "1.IH" [OF True r Some a [symmetric]] r Some a True show ?thesis
        by (subst parse_goose_pdu_loop.simps) simp
    qed
  qed
qed

lemma parse_appid_ok: "\<exists>r. parse_appid data goose_info = Inr r"
  by (simp add: parse_appid_def unpack_H_def slice_def)

lemma parse_length_ok: "\<exists>r. parse_length data goose_info pos = Inr r"
  by (simp add: parse_length_def unpack_H_def slice_def)

lemma parse_pdu_ok: "\<exists>r. parse_pdu decode now data goose_info pos = Inr r"
proof -
  obtain p l where "parse_ber_length data (pos + 1) = Inr (p, l)"
    using parse_ber_length_ok by blast
  then show ?thesis
    unfolding parse_pdu_def byte_at_def by auto
qed

lemma parse_goose_try_ok: "\<exists>goose_info. parse_goose_try decode now data src dst = Inr goose_info"
proof -
  let ?g = "empty_dict\<lparr>src_mac := Some (mac_to_string src),
            dst_mac := Some (mac_to_string dst), timestamp := Some now,
            raw_data_length := Some (int (length data))\<rparr>"
  obtain info1 pos1 where 1: "parse_appid data ?g = Inr (info1, pos1)"
    using parse_appid_ok [of data ?g] by auto
  obtain info2 pos2 where 2: "parse_length data info1 pos1 = Inr (info2, pos2)"
    using parse_length_ok [of data info1 pos1] by auto
  obtain info3 pos3 where 3: "parse_reserved data info2 pos2 = (info3, pos3)"
    by (cases "parse_reserved data info2 pos2")
  obtain info4 where 4: "parse_pdu decode now data info3 pos3 = Inr info4"
    using parse_pdu_ok by blast
  show ?thesis
    unfolding parse_goose_try_def Let_def
    by (simp add: 1 2 3 4)
qed

lemma step_rejects:
  assumes "parse_ber_length data (pos + 1) = Inr (pos1, len)" "pos1 + len > length data"
  shows "goose_pdu_step decode now data pos result = Inr None"
    and "all_data_step decode now data pos vals = Inr None"
  using assms unfolding goose_pdu_step_def all_data_step_def byte_at_def by auto

lemma loop_rejects:
  assumes "parse_ber_length data (pos + 1) = Inr (pos1, len)" "pos1 + len > length data"
  shows "parse_goose_pdu_loop decode now data pos result = (None, result)"
    and "parse_all_data_loop decode now data pos vals = (None, vals)"
  using step_rejects [OF assms]
  by (simp_all add: parse_goose_pdu_loop.simps parse_all_data_loop.simps)


text \<open>
  C1. For every byte string, and so for every truncation \<open>take n pdu\<close> of an
  encoded PDU, the body of \<open>parse_goose_enhanced\<close> ends without an exception
  and the function returns the dictionary it built. No read is out of range at any
  level: neither loop hands an exception to its outer handler, and on a field or
  dataset member that lies within the buffer the inner \<open>try\<close> raises nothing.
  A TLV whose declared length exceeds the bytes that remain is not read: the loops
  stop there with what they had, and the PDU as a whole (tag 0x61) is skipped.
\<close>

theorem parse_goose_enhanced_safe:
  "(\<exists>goose_info. parse_goose_try decode now data src dst = Inr goose_info \<and>
      parse_goose_enhanced decode now data src dst = goose_info) \<and>
   (\<exists>goose_info. parse_goose_try decode now (take n pdu) src dst = Inr goose_info \<and>
      parse_goose_enhanced decode now (take n pdu) src dst = goose_info) \<and>
   fst (parse_goose_pdu_loop decode now data pos result) = None \<and>
   fst (parse_all_data_loop decode now data pos vals) = None \<and>
   (pos1 + len \<le> length data \<longrightarrow>
      (\<exists>r. parse_pdu_field decode now data pos1 len tag result = Inr r) \<and>
      (\<exists>v. parse_data_value decode now data pos1 len tag = Inr v)) \<and>
   (parse_ber_length data (pos + 1) = Inr (pos1, len) \<and> pos1 + len > length data \<longrightarrow>
      goose_pdu_step decode now data pos result = Inr None \<and>
      parse_goose_pdu_loop decode now data pos result = (None, result) \<and>
      all_data_step decode now data pos vals = Inr None \<and>
      parse_all_data_loop decode now data pos vals = (None, vals) \<and>
      (pos < length data \<and> data ! pos = 0x61 \<longrightarrow>
         parse_pdu decode now data result pos = Inr result))"
  (is "?A \<and> ?B \<and> ?C \<and> ?D \<and> (?H1 \<longrightarrow> ?E) \<and> (?H2 \<longrightarrow> ?F)")
proof -
  have a: ?A
    using parse_goose_try_ok [of decode now data src dst]
    by (auto simp: parse_goose_enhanced_def)
  have b: ?B
    using parse_goose_try_ok [of decode now "take n pdu" src dst]
    by (auto simp: parse_goose_enhanced_def)
  have c: ?C by (rule parse_goose_pdu_loop_ok)
  have d: ?D by (rule parse_all_data_loop_ok)
  have e: ?E if ?H1
    using that parse_pdu_field_ok parse_data_value_ok by blast
  have f: ?F if ?H2
    using that step_rejects [of data pos pos1 len] loop_rejects [of data pos pos1 len]
    by (auto simp: parse_pdu_def byte_at_def)
  from a b c d e f show ?thesis by blast
qed

lemma example_pdu_parsed:
  "parse_goose_enhanced ascii_decode 42 example_pdu example_mac example_mac =
     \<lparr>src_mac = Some ''01:0c:cd:01:00:01'', dst_mac = Some ''01:0c:cd:01:00:01'',
      timestamp = Some 42, raw_data_length = Some 25, appId = Some 4096, pdu_length = Some 25,
      reserved = Some ''00000000'', goCbRef = Some ''G1/LLN0$GO'',
      timeAllowedToLive = Some 10000, dataSet = Some ''G1/LLN0$DS'', goID = Some ''G1'',
      stNum = Some 5, sqNum = Some 0, test = Some False, confRev = Some 1,
      ndsCom = Some False, numDatSetEntries = None, values_list = Some [PBool True]\<rparr>"
  by code_simp

lemma example_pdu_truncated:
  "parse_goose_enhanced ascii_decode 42 (take 22 example_pdu) example_mac example_mac =
     \<lparr>src_mac = Some ''01:0c:cd:01:00:01'', dst_mac = Some ''01:0c:cd:01:00:01'',
      timestamp = Some 42, raw_data_length = Some 22, appId = Some 4096, pdu_length = Some 25,
      reserved = Some ''00000000'', goCbRef = Some ''GOOSE_1000/LLN0$GO'',
      timeAllowedToLive = Some 10000, dataSet = Some ''GOOSE_1000/LLN0$DS'',
      goID = Some ''GOOSE_1000'', stNum = Some 1, sqNum = Some 0, test = Some False,
      confRev = Some 1, ndsCom = Some False, numDatSetEntries = None, values_list = Some []\<rparr>"
  by code_simp

lemma example_tlv_too_long:
  "parse_ber_length [0x85, 0x04, 0x01] (0 + 1) = Inr (2, 4)"
  "parse_pdu_field ascii_decode 42 [0x85, 0x01, 0x05] 2 1 0x85 empty_dict =
     Inr (empty_dict\<lparr>stNum := Some 5\<rparr>)"
  by code_simp+

theorem parse_goose_enhanced_safe_witness:
  "parse_goose_try ascii_decode 42 example_pdu example_mac example_mac =
     Inr (parse_goose_enhanced ascii_decode 42 example_pdu example_mac example_mac) \<and>
   stNum (parse_goose_enhanced ascii_decode 42 example_pdu example_mac example_mac) = Some 5 \<and>
   parse_goose_try ascii_decode 42 (take 22 example_pdu) example_mac example_mac =
     Inr (parse_goose_enhanced ascii_decode 42 (take 22 example_pdu) example_mac example_mac) \<and>
   values_list (parse_goose_enhanced ascii_decode 42 (take 22 example_pdu) example_mac example_mac) =
     Some [] \<and>
   (2::nat) + 1 \<le> length [0x85, 0x01, 0x05 :: byte] \<and>
   parse_pdu_field ascii_decode 42 [0x85, 0x01, 0x05] 2 1 0x85 empty_dict =
     Inr (empty_dict\<lparr>stNum := Some 5\<rparr>) \<and>
   parse_ber_length [0x85, 0x04, 0x01] (0 + 1) = Inr (2, 4) \<and>
   (2::nat) + 4 > length [0x85, 0x04, 0x01 :: byte] \<and>
   parse_goose_pdu_loop ascii_decode 42 [0x85, 0x04, 0x01] 0 empty_dict = (None, empty_dict) \<and>
   parse_all_data_loop ascii_decode 42 [0x85, 0x04, 0x01] 0 [] = (None, [])"
  using parse_goose_enhanced_safe [of ascii_decode 42 example_pdu example_mac example_mac
      22 example_pdu 0 empty_dict "[]" 2 1 "0x85"]
    parse_goose_enhanced_safe [of ascii_decode 42 "[0x85, 0x01, 0x05]" example_mac example_mac
      22 example_pdu 0 empty_dict "[]" 2 1 "0x85"]
    parse_goose_enhanced_safe [of ascii_decode 42 "[0x85, 0x04, 0x01]" example_mac example_mac
      22 example_pdu 0 empty_dict "[]" 2 4 "0x85"]
    example_pdu_parsed example_pdu_truncated example_tlv_too_long
  by auto

lemma hex_digit_value_hex_digit: "d < 16 \<Longrightarrow> hex_digit_value (hex_digit upper d) = d"
proof -
  assume "d < 16"
  then have "d \<in> {0, 1, 2, 3, 4, 5, 6, 7, 8, 9, 10, 11, 12, 13, 14, 15}" by simp arith
  then show ?thesis
    by (cases upper) (auto simp: hex_digit_def hex_digit_value_def)
qed

lemma hex_value_snoc: "hex_value (s @ [c]) = hex_value s * 16 + hex_digit_value c"
  by (simp add: hex_value_def)

lemma hex_value_hex_digits: "hex_value (hex_digits upper n) = n"
proof (induction upper n rule: hex_digits.induct)
  case (1 upper n)
  show ?case
  proof (cases "n < 16")
    case True
    then show ?thesis
      by (subst hex_digits.simps) (simp add: hex_value_def hex_digit_value_hex_digit)
  next
    case False
    with "1.IH" show ?thesis
      by (subst hex_digits.simps) (simp add: hex_value_snoc hex_digit_value_hex_digit)
  qed
qed

lemma hex_value_zeros: "hex_value (replicate k (CHR ''0'') @ s) = hex_value s"
proof -
  have "foldl (\<lambda>acc c. acc * 16 + hex_digit_value c) 0 (replicate k (CHR ''0'')) = 0"
    by (induction k) (simp_all add: hex_digit_value_def)
  then show ?thesis by (simp add: hex_value_def)
qed

lemma length_hex_digits: "0 < w \<Longrightarrow> n < 16 ^ w \<Longrightarrow> length (hex_digits upper n) \<le> w"
proof (induction upper n arbitrary: w rule: hex_digits.induct)
  case (1 upper n)
  show ?case
  proof (cases "n < 16")
    case True
    with "1.prems" show ?thesis by (subst hex_digits.simps) simp
  next
    case False
    obtain v where w: "w = Suc v" using "1.prems"(1) by (cases w) auto
    have "v > 0"
    proof (rule ccontr)
      assume "\<not> v > 0"
      with w "1.prems"(2) False show False by simp
    qed
    moreover have "n div 16 < 16 ^ v"
      using "1.prems"(2) w by (simp add: less_mult_imp_div_less mult.commute)
    ultimately have "length (hex_digits upper (n div 16)) \<le> v"
      using "1.IH" [OF False] by blast
    with False w show ?thesis by (subst hex_digits.simps) simp
  qed
qed

lemma from_bytes_big_snoc: "from_bytes_big (bs @ [b]) = from_bytes_big bs * 256 + unat b"
  by (simp add: from_bytes_big_def)

lemma from_bytes_big_bound: "from_bytes_big bs < 256 ^ length bs"
proof (induction bs rule: rev_induct)
  case Nil
  then show ?case by (simp add: from_bytes_big_def)
next
  case (snoc b bs)
  have "unat b < 2 ^ LENGTH(8)" by (rule unsigned_less)
  then have "unat b < 256" by simp
  with snoc show ?case
    by (simp add: from_bytes_big_snoc)
qed

lemma from_bytes_big_sum:
  "from_bytes_big bs = (\<Sum>i<length bs. unat (bs ! i) * 256 ^ (length bs - 1 - i))"
proof (induction bs rule: rev_induct)
  case Nil
  then show ?case by (simp add: from_bytes_big_def)
next
  case (snoc b bs)
  have "(\<Sum>i<length bs. unat ((bs @ [b]) ! i) * 256 ^ (length bs - i)) =
        (\<Sum>i<length bs. unat (bs ! i) * 256 ^ (length bs - 1 - i) * 256)"
  proof (rule sum.cong)
    fix i assume "i \<in> {..<length bs}"
    then have i: "i < length bs" by simp
    then have "length bs - i = Suc (length bs - 1 - i)" by simp
    with i show "unat ((bs @ [b]) ! i) * 256 ^ (length bs - i) =
        unat (bs ! i) * 256 ^ (length bs - 1 - i) * 256"
      by (simp add: nth_append)
  qed simp
  then show ?case
    using snoc by (simp add: from_bytes_big_snoc sum_distrib_right)
qed

lemma signed_take_bit_upper_half:
  assumes "(2::int) ^ k \<le> n" "n < 2 ^ Suc k"
  shows "signed_take_bit k n = n - 2 ^ Suc k"
proof -
  have "take_bit (Suc k) (n - 2 ^ Suc k) = take_bit (Suc k) n"
    by (simp only: take_bit_eq_mod minus_mod_self2)
  then have "signed_take_bit k n = signed_take_bit k (n - 2 ^ Suc k)"
    by (simp only: signed_take_bit_eq_iff_take_bit_eq)
  also have "\<dots> = n - 2 ^ Suc k"
    using assms by (intro signed_take_bit_int_eq_self) simp_all
  finally show ?thesis .
qed

lemma from_bytes_big_signed_eq:
  assumes "bs \<noteq> []"
  shows "from_bytes_big_signed bs = signed_take_bit (8 * length bs - 1) (int (from_bytes_big bs))"
proof -
  let ?n = "int (from_bytes_big bs)"
  let ?k = "8 * length bs - 1"
  have k: "Suc ?k = 8 * length bs" using assms by (cases bs) auto
  have "from_bytes_big bs < 2 ^ (8 * length bs)"
    using from_bytes_big_bound [of bs] by (simp add: power_mult)
  then have "?n < int (2 ^ (8 * length bs))" by (simp only: of_nat_less_iff)
  then have ub: "?n < 2 ^ Suc ?k" by (simp only: k) simp
  show ?thesis
  proof (cases "?n \<ge> 2 ^ ?k")
    case True
    from signed_take_bit_upper_half [OF True ub] True assms show ?thesis
      by (simp only: from_bytes_big_signed_def Let_def k) simp
  next
    case False
    have "- (2 ^ ?k) \<le> (0::int)" by simp
    also have "0 \<le> ?n" by simp
    finally have "- (2 ^ ?k) \<le> ?n" .
    with False have "signed_take_bit ?k ?n = ?n"
      by (intro signed_take_bit_int_eq_self) simp_all
    with False assms show ?thesis
      by (simp add: from_bytes_big_signed_def Let_def)
  qed
qed


lemma all_data_step_value:
  assumes "int pos < int (length data) - 1"
    and "parse_ber_length data (pos + 1) = Inr (pos1, len)" and "pos1 + len \<le> length data"
    and "parse_data_value decode now data pos1 len (data ! pos) = Inr v"
  shows "all_data_step decode now data pos vals = Inr (Some (pos1 + len, vals @ [v]))"
  using assms unfolding all_data_step_def Let_def byte_at_def by auto

lemma parse_all_data_loop_prefix:
  "\<exists>rest. snd (parse_all_data_loop decode now data pos vals) = vals @ rest"
proof (induction decode now data pos vals rule: parse_all_data_loop.induct)
  case (1 decode now data pos vals)
  show ?case
  proof (cases "int pos < int (length data) - 1")
    case False
    then show ?thesis by (simp add: parse_all_data_loop.simps)
  next
    case True
    show ?thesis
    proof (cases "all_data_step decode now data pos vals")
      case (Inl e)
      with True show ?thesis by (simp add: parse_all_data_loop.simps)
    next
      case (Inr r)
      show ?thesis
      proof (cases r)
        case None
        with Inr True show ?thesis by (simp add: parse_all_data_loop.simps)
      next
        case (Some a)
        obtain pos' vals' where a: "a = (pos', vals')" by (cases a)
        have "\<exists>v. vals' = vals @ [v]"
          using Inr Some a unfolding all_data_step_def Let_def
          by (auto split: if_splits sum.splits prod.splits)
        moreover from "1.IH" [OF True Inr Some a [symmetric]]
        obtain rest where "snd (parse_all_data_loop decode now data pos' vals') = vals' @ rest"
          by blast
        ultimately show ?thesis
          using Inr Some a True by (subst parse_all_data_loop.simps) auto
      qed
    qed
  qed
qed

lemma format_hex_nonneg: "0 \<le> n \<Longrightarrow> format_hex upper w n = zfill w (hex_digits upper (nat n))"
  by (simp add: format_hex_def)

lemma hex_value_format_hex: "0 \<le> n \<Longrightarrow> hex_value (format_hex upper w n) = nat n"
  by (simp add: format_hex_nonneg zfill_def hex_value_zeros hex_value_hex_digits)

lemma length_format_hex:
  "0 \<le> n \<Longrightarrow> 0 < w \<Longrightarrow> nat n < 16 ^ w \<Longrightarrow> length (format_hex upper w n) = w"
  using length_hex_digits [of w "nat n" upper]
  by (simp add: format_hex_nonneg zfill_def)

text \<open>
  C7. A member of allData that lies within the buffer and whose tag is none of
  0x83, 0x84, 0x85, 0x86, 0x87, 0x89, 0x8A, 0x8C, 0x91 makes the loop append the
  string \<open>Type\<close>, the tag as two upper-case hexadecimal digits, a colon and the
  hexadecimal text of the content, and go on behind the member: the list returned
  holds that string at the member's place, followed by what the rest decodes to.
\<close>

theorem unknown_tag_preserved:
  "tag \<notin> {0x83, 0x84, 0x85, 0x86, 0x87, 0x89, 0x8A, 0x8C, 0x91} \<and>
   int pos < int (length data) - 1 \<and> data ! pos = tag \<and>
   parse_ber_length data (pos + 1) = Inr (pos1, len) \<and> pos1 + len \<le> length data \<longrightarrow>
     all_data_step decode now data pos vals =
       Inr (Some (pos1 + len,
         vals @ [PStr (''Type'' @ format_hex True 2 (uint tag) @ '':'' @
                       bytes_hex (slice data pos1 (pos1 + len)))])) \<and>
     parse_all_data_loop decode now data pos vals =
       parse_all_data_loop decode now data (pos1 + len)
         (vals @ [PStr (''Type'' @ format_hex True 2 (uint tag) @ '':'' @
                        bytes_hex (slice data pos1 (pos1 + len)))]) \<and>
     (\<exists>rest. snd (parse_all_data_loop decode now data pos vals) =
        vals @ PStr (''Type'' @ format_hex True 2 (uint tag) @ '':'' @
                     bytes_hex (slice data pos1 (pos1 + len))) # rest) \<and>
     hex_value (format_hex True 2 (uint tag)) = unat tag"
proof (intro impI)
  let ?v = "PStr (''Type'' @ format_hex True 2 (uint tag) @ '':'' @
                  bytes_hex (slice data pos1 (pos1 + len)))"
  assume h: "tag \<notin> {0x83, 0x84, 0x85, 0x86, 0x87, 0x89, 0x8A, 0x8C, 0x91} \<and>
   int pos < int (length data) - 1 \<and> data ! pos = tag \<and>
   parse_ber_length data (pos + 1) = Inr (pos1, len) \<and> pos1 + len \<le> length data"
  then have v: "parse_data_value decode now data pos1 len (data ! pos) = Inr ?v"
    by (simp add: parse_data_value_def)
  from h have step: "all_data_step decode now data pos vals = Inr (Some (pos1 + len, vals @ [?v]))"
    by (intro all_data_step_value [OF _ _ _ v]) simp_all
  from h step have loop: "parse_all_data_loop decode now data pos vals =
      parse_all_data_loop decode now data (pos1 + len) (vals @ [?v])"
    by (subst parse_all_data_loop.simps) simp
  obtain rest where "snd (parse_all_data_loop decode now data (pos1 + len) (vals @ [?v])) =
      (vals @ [?v]) @ rest"
    using parse_all_data_loop_prefix by blast
  with loop have ex: "\<exists>rest. snd (parse_all_data_loop decode now data pos vals) = vals @ ?v # rest"
    by simp
  have hv: "hex_value (format_hex True 2 (uint tag)) = unat tag"
    by (simp add: hex_value_format_hex)
  from step loop ex hv show "all_data_step decode now data pos vals =
       Inr (Some (pos1 + len, vals @ [?v])) \<and>
     parse_all_data_loop decode now data pos vals =
       parse_all_data_loop decode now data (pos1 + len) (vals @ [?v]) \<and>
     (\<exists>rest. snd (parse_all_data_loop decode now data pos vals) = vals @ ?v # rest) \<and>
     hex_value (format_hex True 2 (uint tag)) = unat tag"
    by blast
qed

lemma unknown_tag_example:
  "parse_ber_length [0xA2, 0x02, 0xDE, 0xAD, 0x83, 0x01, 0x01] (0 + 1) = Inr (2, 2)"
  "parse_all_data_loop ascii_decode 42 [0xA2, 0x02, 0xDE, 0xAD, 0x83, 0x01, 0x01] 0 [] =
     (None, [PStr ''TypeA2:dead'', PBool True])"
  "''Type'' @ format_hex True 2 (uint (0xA2 :: byte)) @ '':'' @
     bytes_hex (slice [0xA2, 0x02, 0xDE, 0xAD, 0x83, 0x01, 0x01] 2 (2 + 2)) = ''TypeA2:dead''"
  by code_simp+

theorem unknown_tag_preserved_witness:
  "(0xA2 :: byte) \<notin> {0x83, 0x84, 0x85, 0x86, 0x87, 0x89, 0x8A, 0x8C, 0x91} \<and>
   int 0 < int (length [0xA2, 0x02, 0xDE, 0xAD, 0x83, 0x01, 0x01 :: byte]) - 1 \<and>
   [0xA2, 0x02, 0xDE, 0xAD, 0x83, 0x01, 0x01 :: byte] ! 0 = 0xA2 \<and>
   parse_ber_length [0xA2, 0x02, 0xDE, 0xAD, 0x83, 0x01, 0x01] (0 + 1) = Inr (2, 2) \<and>
   (2::nat) + 2 \<le> length [0xA2, 0x02, 0xDE, 0xAD, 0x83, 0x01, 0x01 :: byte] \<and>
   all_data_step ascii_decode 42 [0xA2, 0x02, 0xDE, 0xAD, 0x83, 0x01, 0x01] 0 [] =
     Inr (Some (4, [PStr ''TypeA2:dead''])) \<and>
   parse_all_data_enhanced ascii_decode 42 [0xA2, 0x02, 0xDE, 0xAD, 0x83, 0x01, 0x01] =
     [PStr ''TypeA2:dead'', PBool True]"
  using unknown_tag_preserved [of "0xA2" 0 "[0xA2, 0x02, 0xDE, 0xAD, 0x83, 0x01, 0x01]" 2 2
      ascii_decode 42 "[]"] unknown_tag_example
  by (simp add: parse_all_data_enhanced_def)

lemma bit_string_value:
  assumes "1 < len" "pos + len \<le> length data"
  shows "\<exists>digits. parse_data_value decode now data pos len 0x84 = Inr (PStr (''0x'' @ digits)) \<and>
           length digits = 2 * (len - 1) \<and>
           hex_value digits = from_bytes_big (slice data (pos + 1) (pos + len))"
proof -
  let ?bs = "slice data (pos + 1) (pos + len)"
  let ?digits = "format_hex True ((len - 1) * 2) (int (from_bytes_big ?bs))"
  have lb: "length ?bs = len - 1" using assms by (simp add: slice_def)
  have "from_bytes_big ?bs < 256 ^ (len - 1)"
    using from_bytes_big_bound [of ?bs] lb by simp
  also have "(256::nat) ^ (len - 1) = 16 ^ ((len - 1) * 2)"
    by (simp add: power_mult mult.commute)
  finally have "length ?digits = (len - 1) * 2"
    using assms by (intro length_format_hex) simp_all
  moreover have "hex_value ?digits = from_bytes_big ?bs"
    by (simp add: hex_value_format_hex)
  moreover have "parse_data_value decode now data pos len 0x84 = Inr (PStr (''0x'' @ ?digits))"
    using assms by (simp add: parse_data_value_def byte_at_def Let_def)
  ultimately show ?thesis by (intro exI [of _ ?digits]) simp
qed

text \<open>
  C8. A member with tag 0x85 and at most 8 content bytes decodes to the signed value
  of those bytes, and one with tag 0x86 to their unsigned value, where the unsigned
  value of a byte string is the big-endian sum of its bytes and the signed value is
  its two's complement reading at that byte length. A member with tag 0x84 and more
  than one content byte decodes to the text \<open>0x\<close> followed by two upper-case
  hexadecimal digits per byte after the first, which read back as the unsigned value
  of those bytes; with at most one content byte it decodes to \<open>0x00\<close>.
\<close>

theorem dataset_numeric_semantics:
  "(len \<le> 8 \<and> pos + len \<le> length data \<longrightarrow>
      length (slice data pos (pos + len)) = len \<and>
      parse_data_value decode now data pos len 0x85 =
        Inr (PInt (from_bytes_big_signed (slice data pos (pos + len)))) \<and>
      parse_data_value decode now data pos len 0x86 =
        Inr (PInt (int (from_bytes_big (slice data pos (pos + len)))))) \<and>
   from_bytes_big bs = (\<Sum>i<length bs. unat (bs ! i) * 256 ^ (length bs - 1 - i)) \<and>
   from_bytes_big_signed [] = 0 \<and>
   (bs \<noteq> [] \<longrightarrow>
      from_bytes_big_signed bs = signed_take_bit (8 * length bs - 1) (int (from_bytes_big bs))) \<and>
   (1 < len \<and> pos + len \<le> length data \<longrightarrow>
      (\<exists>digits. parse_data_value decode now data pos len 0x84 = Inr (PStr (''0x'' @ digits)) \<and>
         length digits = 2 * (len - 1) \<and>
         hex_value digits = from_bytes_big (slice data (pos + 1) (pos + len)))) \<and>
   (len \<le> 1 \<longrightarrow> parse_data_value decode now data pos len 0x84 = Inr (PStr ''0x00''))"
  (is "(?H1 \<longrightarrow> ?A) \<and> ?B \<and> ?C \<and> (?H2 \<longrightarrow> ?D) \<and> (?H3 \<longrightarrow> ?E) \<and> (?H4 \<longrightarrow> ?F)")
proof -
  have a: ?A if ?H1 using that by (simp add: parse_data_value_def length_slice)
  have b: ?B by (rule from_bytes_big_sum)
  have c: ?C by (simp add: from_bytes_big_signed_def from_bytes_big_def)
  have d: ?D if ?H2 using that by (rule from_bytes_big_signed_eq)
  have e: ?E if ?H3 using that bit_string_value by blast
  have f: ?F if ?H4 using that by (simp add: parse_data_value_def)
  from a b c d e f show ?thesis by blast
qed

lemma numeric_example:
  "parse_data_value ascii_decode 42 [0x85, 0x02, 0xFF, 0xFE] 2 2 0x85 = Inr (PInt (- 2))"
  "parse_data_value ascii_decode 42 [0x85, 0x02, 0xFF, 0xFE] 2 2 0x86 = Inr (PInt 65534)"
  "parse_data_value ascii_decode 42 [0x84, 0x03, 0x00, 0x0A, 0xBC] 2 3 0x84 = Inr (PStr ''0x0ABC'')"
  "from_bytes_big [0xFF, 0xFE] = 65534"
  "from_bytes_big_signed [0xFF, 0xFE] = - 2"
  "from_bytes_big (slice [0x84, 0x03, 0x00, 0x0A, 0xBC] (2 + 1) (2 + 3)) = 2748"
  by (simp_all add: parse_data_value_def from_bytes_big_signed_def from_bytes_big_def slice_def
      byte_at_def format_hex_def zfill_def hex_digits.simps hex_digit_def)

theorem dataset_numeric_semantics_witness:
  "(2::nat) \<le> 8 \<and> (2::nat) + 2 \<le> length [0x85, 0x02, 0xFF, 0xFE :: byte] \<and>
   parse_data_value ascii_decode 42 [0x85, 0x02, 0xFF, 0xFE] 2 2 0x85 = Inr (PInt (- 2)) \<and>
   parse_data_value ascii_decode 42 [0x85, 0x02, 0xFF, 0xFE] 2 2 0x86 = Inr (PInt 65534) \<and>
   [0xFF, 0xFE :: byte] \<noteq> [] \<and>
   signed_take_bit (8 * length [0xFF, 0xFE :: byte] - 1) (int (from_bytes_big [0xFF, 0xFE])) = - 2 \<and>
   (1::nat) < 3 \<and> (2::nat) + 3 \<le> length [0x84, 0x03, 0x00, 0x0A, 0xBC :: byte] \<and>
   parse_data_value ascii_decode 42 [0x84, 0x03, 0x00, 0x0A, 0xBC] 2 3 0x84 = Inr (PStr ''0x0ABC'') \<and>
   hex_value ''0ABC'' = from_bytes_big (slice [0x84, 0x03, 0x00, 0x0A, 0xBC] (2 + 1) (2 + 3)) \<and>
   (0::nat) \<le> 1 \<and>
   parse_data_value ascii_decode 42 [0x84, 0x00] 2 0 0x84 = Inr (PStr ''0x00'')"
proof -
  note t1 = dataset_numeric_semantics [of 2 2 "[0x85, 0x02, 0xFF, 0xFE]" ascii_decode 42 "[0xFF, 0xFE]"]
  note t2 = dataset_numeric_semantics [of 3 2 "[0x84, 0x03, 0x00, 0x0A, 0xBC]" ascii_decode 42 "[0xFF, 0xFE]"]
  note t3 = dataset_numeric_semantics [of 0 2 "[0x84, 0x00]" ascii_decode 42 "[0xFF, 0xFE]"]
  have h1: "(2::nat) \<le> 8 \<and> (2::nat) + 2 \<le> length [0x85, 0x02, 0xFF, 0xFE :: byte]" by simp
  have h2: "[0xFF, 0xFE :: byte] \<noteq> []" by simp
  have h3: "(1::nat) < 3 \<and> (2::nat) + 3 \<le> length [0x84, 0x03, 0x00, 0x0A, 0xBC :: byte]" by simp
  have h4: "(0::nat) \<le> 1" by simp
  from t1 [THEN conjunct1, THEN mp, OF h1]
  have a: "parse_data_value ascii_decode 42 [0x85, 0x02, 0xFF, 0xFE] 2 2 0x85 = Inr (PInt (- 2))"
    and b: "parse_data_value ascii_decode 42 [0x85, 0x02, 0xFF, 0xFE] 2 2 0x86 = Inr (PInt 65534)"
    by (simp_all only: numeric_example)
  from t1 [THEN conjunct2, THEN conjunct2, THEN conjunct2, THEN conjunct1, THEN mp, OF h2]
  have c: "signed_take_bit (8 * length [0xFF, 0xFE :: byte] - 1) (int (from_bytes_big [0xFF, 0xFE])) = - 2"
    by (simp only: numeric_example)
  from t2 [THEN conjunct2, THEN conjunct2, THEN conjunct2, THEN conjunct2, THEN conjunct1, THEN mp, OF h3]
  obtain digits where d: "parse_data_value ascii_decode 42 [0x84, 0x03, 0x00, 0x0A, 0xBC] 2 3 0x84 =
      Inr (PStr (''0x'' @ digits))"
    and hv: "hex_value digits = from_bytes_big (slice [0x84, 0x03, 0x00, 0x0A, 0xBC] (2 + 1) (2 + 3))"
    by blast
  from d have dg: "digits = ''0ABC''" by (simp add: numeric_example)
  from t3 [THEN conjunct2, THEN conjunct2, THEN conjunct2, THEN conjunct2, THEN conjunct2, THEN mp, OF h4]
  have e: "parse_data_value ascii_decode 42 [0x84, 0x00] 2 0 0x84 = Inr (PStr ''0x00'')" .
  from h1 h2 h3 h4 a b c d hv dg e show ?thesis by simp
qed

end
